theory Spec2Isabelle
  imports Complex_Main
begin

section \<open>Python strings\<close>

text \<open>
  Python strings are modelled as \<open>string\<close>, a list of characters, one character
  for each code point of the Python string; \<open>len\<close> is \<open>length\<close>. The examples stay
  below code point 256, the range of \<open>char\<close>. The two builtins
  that depend on the Unicode tables, \<open>str.lower\<close> and \<open>str.isspace\<close>, are parameters
  of the model (\<open>text_ops\<close>): \<open>lower\<close> is any function on strings, since Python's
  is not character by character (a capital sigma is lower-cased by its position in the
  word) and need not keep the length, and \<open>isspace\<close> is any set of characters.
\<close>

definition startswith :: "string \<Rightarrow> string \<Rightarrow> bool" where
  \<comment> \<open>\<open>s.startswith(p)\<close>\<close>
  "startswith s p = (take (length p) s = p)"

definition endswith :: "string \<Rightarrow> string \<Rightarrow> bool" where
  \<comment> \<open>\<open>s.endswith(p)\<close>\<close>
  "endswith s p = (drop (length s - length p) s = p)"

fun str_find :: "string \<Rightarrow> string \<Rightarrow> nat option" where
  \<comment> \<open>\<open>s.find(t)\<close>: the offset of the first occurrence of \<open>t\<close> in \<open>s\<close>; \<open>None\<close> is
      Python's \<open>-1\<close>. \<open>t in s\<close> is \<open>str_find s t \<noteq> None\<close>, and \<open>s.index(t)\<close> the offset
      when there is one.\<close>
  "str_find [] t = (if t = [] then Some 0 else None)"
| "str_find (c # s) t =
     (if startswith (c # s) t then Some 0
      else (case str_find s t of None \<Rightarrow> None | Some i \<Rightarrow> Some (Suc i)))"

definition str_in :: "string \<Rightarrow> string \<Rightarrow> bool" where
  \<comment> \<open>\<open>t in s\<close> (argument order of the Python operator: needle first)\<close>
  "str_in t s = (str_find s t \<noteq> None)"

record text_ops =
  lower :: "string \<Rightarrow> string"
  isspace :: "char \<Rightarrow> bool"

definition strip :: "text_ops \<Rightarrow> string \<Rightarrow> string" where
  \<comment> \<open>\<open>s.strip()\<close>: the white space at both ends removed\<close>
  "strip ops s = rev (dropWhile (isspace ops) (rev (dropWhile (isspace ops) s)))"

definition truthy :: "string option \<Rightarrow> bool" where
  \<comment> \<open>the truth value of an \<open>Optional[str]\<close>: \<open>None\<close> and \<open>''\<close> are false\<close>
  "truthy s = (case s of None \<Rightarrow> False | Some t \<Rightarrow> t \<noteq> [])"

definition digit_char :: "nat \<Rightarrow> char" where
  \<comment> \<open>the decimal digit \<open>d < 10\<close>\<close>
  "digit_char d = ''0123456789'' ! d"

fun str_of_nat :: "nat \<Rightarrow> string" where
  \<comment> \<open>\<open>str(n)\<close> of a non-negative integer, as an f-string prints it\<close>
  "str_of_nat n = (if n < 10 then [digit_char n] else str_of_nat (n div 10) @ [digit_char (n mod 10)])"

section \<open>Primitive edits (the requests of a batch update)\<close>

datatype request =
    InsertText (location_index: int) (location_tabId: "string option") (insert_text: string)
  | UpdateParagraphStyle (range_startIndex: int) (range_endIndex: int)
      (namedStyleType: string) (fields: string)
  | UpdateTextStyle (range_startIndex: int) (range_endIndex: int)
      (italic: bool) (rgbColor: "real \<times> real \<times> real") (fields: string)
  | DeleteContentRange (range_startIndex: int) (range_endIndex: int)

section \<open>Data model of the content inserter\<close>

record commented_range =
  start_index :: int
  end_index :: int
  comment_id :: string
  comment_content :: string
  anchor_text :: string

definition contains :: "commented_range \<Rightarrow> int \<Rightarrow> bool" where
  "contains cr i = (start_index cr \<le> i \<and> i \<le> end_index cr)"

section \<open>Mutation sequencer\<close>

definition tab_location :: "string option \<Rightarrow> string option" where
  \<comment> \<open>\<open>if tab_id: location['tabId'] = tab_id\<close>\<close>
  "tab_location tab_id = (if truthy tab_id then tab_id else None)"

definition simple_insert_requests ::
  "int \<Rightarrow> string \<Rightarrow> string option \<Rightarrow> bool \<Rightarrow> string option \<Rightarrow> request list" where
  \<comment> \<open>the request list \<open>_simple_insert\<close> builds before it submits the batch\<close>
  "simple_insert_requests index content tab_id add_inline_attribution attribution_text =
     [InsertText index (tab_location tab_id) content,
      UpdateParagraphStyle index (index + int (length content)) ''NORMAL_TEXT'' ''namedStyleType'']
     @ (if add_inline_attribution \<and> truthy attribution_text then
          (let attribution_full = '' (from: '' @ the attribution_text @ '')'';
               attribution_index = index + int (length content)
           in [InsertText attribution_index (tab_location tab_id) attribution_full,
               UpdateTextStyle attribution_index
                 (attribution_index + int (length attribution_full))
                 True (0.6, 0.2, 0.8) ''italic,foregroundColor''])
        else [])"

definition insert_with_comment_preservation_requests ::
  "string \<Rightarrow> commented_range \<Rightarrow> request list" where
  \<comment> \<open>the request list \<open>_insert_with_comment_preservation\<close> builds; its \<open>index\<close>
      argument is never read\<close>
  "insert_with_comment_preservation_requests new_text cr =
     (let start_idx = start_index cr;
          end_idx = end_index cr;
          insert_position = start_idx + (end_idx - start_idx) div 2;
          delete_after_start = insert_position + int (length new_text);
          delete_after_end = end_idx + int (length new_text)
      in [InsertText insert_position None new_text]
         @ (if delete_after_end > delete_after_start
            then [DeleteContentRange delete_after_start delete_after_end] else [])
         @ (if insert_position > start_idx
            then [DeleteContentRange start_idx insert_position] else []))"

definition format_content_for_insertion :: "string \<Rightarrow> string" where
  "format_content_for_insertion content =
     (let content1 = (if \<not> startswith content [CHR 0x0A] then [CHR 0x0A, CHR 0x0A] @ content
                      else content)
      in if \<not> endswith content1 [CHR 0x0A] then content1 @ [CHR 0x0A, CHR 0x0A] else content1)"

section \<open>The store's text buffer\<close>

text \<open>
  The document store applies a batch to a flat text addressed by absolute offsets, each
  request against the text the earlier requests left (specification, sections 4.3 and
  9). Here the text is a character list with offsets counted from 0; a request whose
  offsets lie outside the text, or a delete of an empty or inverted range, is rejected
  (\<open>None\<close>). Style requests leave the text as it is.
\<close>

fun apply_request :: "request \<Rightarrow> string \<Rightarrow> string option" where
  "apply_request (InsertText i _ t) buf =
     (if 0 \<le> i \<and> i \<le> int (length buf)
      then Some (take (nat i) buf @ t @ drop (nat i) buf) else None)"
| "apply_request (DeleteContentRange s e) buf =
     (if 0 \<le> s \<and> s < e \<and> e \<le> int (length buf)
      then Some (take (nat s) buf @ drop (nat e) buf) else None)"
| "apply_request (UpdateParagraphStyle s e _ _) buf = Some buf"
| "apply_request (UpdateTextStyle s e _ _ _) buf = Some buf"

fun apply_batch :: "request list \<Rightarrow> string \<Rightarrow> string option" where
  "apply_batch [] buf = Some buf"
| "apply_batch (r # rs) buf =
     (case apply_request r buf of None \<Rightarrow> None | Some buf' \<Rightarrow> apply_batch rs buf')"

section \<open>Exceptions\<close>

text \<open>
  The Python exception classes the code can meet, each with its message. The document
  accessor raises \<open>ValueError\<close> for a document that is not found (HTTP 404) and
  \<open>PermissionError\<close> for one the caller may not read (HTTP 403): the specification's
  NotFound and PermissionDenied. All of them are subclasses of \<open>Exception\<close>.
\<close>

datatype error =
    ValueError string
  | PermissionError string
  | RuntimeError string
  | IndexError string
  | HttpError string

fun str_of_error :: "error \<Rightarrow> string" where
  \<comment> \<open>\<open>str(e)\<close>\<close>
  "str_of_error (ValueError m) = m"
| "str_of_error (PermissionError m) = m"
| "str_of_error (RuntimeError m) = m"
| "str_of_error (IndexError m) = m"
| "str_of_error (HttpError m) = m"

section \<open>The document resource\<close>

text \<open>
  The JSON of the document store, as far as the code reads it. A key that may be absent
  is an \<open>option\<close>; where the code reads a list with \<open>.get(key, [])\<close> only, the absent
  key and the empty list are the same value \<open>[]\<close> (the rows of a table, the cells of a
  row, the content of a cell).
\<close>

record text_run =
  tr_content :: "string option"

record para_element =
  pe_startIndex :: "int option"
  pe_textRun :: "text_run option"

record para =
  p_elements :: "para_element list option"
  p_namedStyleType :: "string option"

datatype element =
  Element (el_startIndex: "int option") (el_endIndex: "int option")
    (el_paragraph: "para option") (el_table: "element list list list option")

record body =
  body_content :: "element list option"

record document =
  doc_body :: "body option"

definition content_or :: "document \<Rightarrow> element list \<Rightarrow> element list" where
  \<comment> \<open>\<open>doc.get('body', {}).get('content', default)\<close>\<close>
  "content_or doc dflt =
     (case doc_body doc of None \<Rightarrow> dflt
      | Some b \<Rightarrow> (case body_content b of None \<Rightarrow> dflt | Some c \<Rightarrow> c))"

definition elements_of :: "para \<Rightarrow> para_element list" where
  \<comment> \<open>\<open>para.get('elements', [])\<close>\<close>
  "elements_of para = (case p_elements para of None \<Rightarrow> [] | Some es \<Rightarrow> es)"

record comment =
  cm_comment_id :: string
  cm_content :: string
  cm_anchor :: "string option"

record doc_section =
  heading :: string
  sec_start_index :: "int option"
  sec_end_index :: "int option"

record insertion_point =
  index :: int
  section_name :: "string option"
  safe :: bool
  affected_comments :: "string list"
  strategy :: string
  reason :: string

record merge_options =
  preserve_comments :: bool
  comment_strategy :: string
  add_source_comment :: bool
  add_inline_attribution :: bool
  source_description :: "string option"
  target_section :: "string option"

definition default_merge_options :: merge_options where
  "default_merge_options =
     \<lparr>preserve_comments = True, comment_strategy = ''preserve'', add_source_comment = True,
      add_inline_attribution = True, source_description = None, target_section = None\<rparr>"

section \<open>The collaborators\<close>

text \<open>
  The editor and the remote services behind it and behind its comment manager are the
  collaborators of the content inserter. \<open>'w\<close> is the state of the remote store.
  Every call of a collaborator returns or raises; reads leave the state alone, and the
  calls that change it return the new state with their result. \<open>docs_get\<close> is the read
  of the document that the comment manager makes for itself, \<open>comments_create\<close> the
  creation of a comment, which gives the new comment's id when the store's answer has
  one.
\<close>

record 'w editor =
  extract_doc_id :: "string \<Rightarrow> string"
  extract_tab_id :: "string \<Rightarrow> string option"
  get_document :: "'w \<Rightarrow> string \<Rightarrow> error + document"
  analyze_document :: "'w \<Rightarrow> string \<Rightarrow> error + doc_section list"
  get_comments :: "'w \<Rightarrow> string \<Rightarrow> error + comment list"
  batchUpdate :: "'w \<Rightarrow> string \<Rightarrow> request list \<Rightarrow> (error + unit) \<times> 'w"
  docs_get :: "'w \<Rightarrow> string \<Rightarrow> error + document"
  comments_create :: "'w \<Rightarrow> string \<Rightarrow> string \<Rightarrow> (error + string option) \<times> 'w"

section \<open>Annotation resolver\<close>

fun find_in_text_elements :: "para_element list \<Rightarrow> string \<Rightarrow> (int \<times> int) option" where
  \<comment> \<open>the loop \<open>for text_elem in para.get('elements', [])\<close> of \<open>_find_text_range\<close>;
      \<open>target_text in text_content\<close> and \<open>text_content.index(target_text)\<close> are the one
      search \<open>str_find\<close>\<close>
  "find_in_text_elements [] target_text = None"
| "find_in_text_elements (text_elem # rest) target_text =
     (case pe_textRun text_elem of
        None \<Rightarrow> find_in_text_elements rest target_text
      | Some text_run \<Rightarrow>
          (let text_content = (case tr_content text_run of None \<Rightarrow> [] | Some c \<Rightarrow> c)
           in case str_find text_content target_text of
                None \<Rightarrow> find_in_text_elements rest target_text
              | Some text_offset \<Rightarrow>
                  (let start_index = (case pe_startIndex text_elem of None \<Rightarrow> 0 | Some i \<Rightarrow> i);
                       actual_start = start_index + int text_offset;
                       actual_end = actual_start + int (length target_text)
                   in Some (actual_start, actual_end))))"

fun find_text_range :: "element list \<Rightarrow> string \<Rightarrow> (int \<times> int) option"
  and find_in_rows :: "element list list list \<Rightarrow> string \<Rightarrow> (int \<times> int) option"
  and find_in_cells :: "element list list \<Rightarrow> string \<Rightarrow> (int \<times> int) option" where
  "find_text_range [] target_text = None"
| "find_text_range (Element si ei para tbl # rest) target_text =
     (case (case para of None \<Rightarrow> None
            | Some p \<Rightarrow> find_in_text_elements (elements_of p) target_text) of
        Some r \<Rightarrow> Some r
      | None \<Rightarrow>
          (case (case tbl of None \<Rightarrow> None | Some rows \<Rightarrow> find_in_rows rows target_text) of
             Some r \<Rightarrow> Some r
           | None \<Rightarrow> find_text_range rest target_text))"
| "find_in_rows [] target_text = None"
| "find_in_rows (row # rows) target_text =
     (case find_in_cells row target_text of
        Some r \<Rightarrow> Some r
      | None \<Rightarrow> find_in_rows rows target_text)"
| "find_in_cells [] target_text = None"
| "find_in_cells (cell # cells) target_text =
     (case find_text_range cell target_text of
        Some r \<Rightarrow> Some r
      | None \<Rightarrow> find_in_cells cells target_text)"

fun resolve_comments :: "element list \<Rightarrow> comment list \<Rightarrow> commented_range list" where
  \<comment> \<open>the loop \<open>for comment in comments\<close> of \<open>find_commented_ranges\<close>\<close>
  "resolve_comments content_elements [] = []"
| "resolve_comments content_elements (c # cs) =
     (if \<not> truthy (cm_anchor c) then resolve_comments content_elements cs
      else (let anchor_text = the (cm_anchor c)
            in case find_text_range content_elements anchor_text of
                 None \<Rightarrow> resolve_comments content_elements cs
               | Some (start_idx, end_idx) \<Rightarrow>
                   \<lparr>start_index = start_idx, end_index = end_idx,
                    comment_id = cm_comment_id c, comment_content = cm_content c,
                    anchor_text = anchor_text\<rparr> # resolve_comments content_elements cs))"

definition find_commented_ranges ::
  "'w editor \<Rightarrow> 'w \<Rightarrow> string \<Rightarrow> error + commented_range list" where
  "find_commented_ranges ed w doc_id =
     (case get_document ed w doc_id of
        Inl e \<Rightarrow> Inl e
      | Inr doc \<Rightarrow>
          (case get_comments ed w doc_id of
             Inl e \<Rightarrow> Inl e
           | Inr comments \<Rightarrow> Inr (resolve_comments (content_or doc []) comments)))"

section \<open>Insertion point planner\<close>

fun find_section_boundaries :: "text_ops \<Rightarrow> doc_section list \<Rightarrow> string \<Rightarrow> (int \<times> int) option" where
  "find_section_boundaries ops [] name = None"
| "find_section_boundaries ops (sec # rest) name =
     (if heading sec \<noteq> [] \<and> str_in (lower ops name) (lower ops (heading sec)) then
        (case (sec_start_index sec, sec_end_index sec) of
           (Some start_idx, Some end_idx) \<Rightarrow> Some (start_idx, end_idx)
         | _ \<Rightarrow> find_section_boundaries ops rest name)
      else find_section_boundaries ops rest name)"

definition document_end :: "document \<Rightarrow> error + int" where
  \<comment> \<open>\<open>doc.get('body', {}).get('content', [{}])[-1].get('endIndex', 1)\<close>\<close>
  "document_end doc =
     (let content = content_or doc [Element None None None None]
      in if content = [] then Inl (IndexError ''list index out of range'')
         else Inr (case el_endIndex (last content) of None \<Rightarrow> 1 | Some e \<Rightarrow> e))"

definition insert_at_document_end ::
  "'w editor \<Rightarrow> 'w \<Rightarrow> string \<Rightarrow> string \<Rightarrow> error + insertion_point" where
  \<comment> \<open>the two returns of \<open>calculate_insertion_point\<close> at the document's end; they differ
      in the reason only\<close>
  "insert_at_document_end ed w doc_id why =
     (case get_document ed w doc_id of
        Inl e \<Rightarrow> Inl e
      | Inr doc \<Rightarrow>
          (case document_end doc of
             Inl e \<Rightarrow> Inl e
           | Inr doc_end \<Rightarrow>
               Inr \<lparr>index = doc_end - 1, section_name = None, safe = True,
                    affected_comments = [], strategy = ''new_section'', reason = why\<rparr>))"

definition calculate_insertion_point ::
  "text_ops \<Rightarrow> 'w editor \<Rightarrow> 'w \<Rightarrow> string \<Rightarrow> string option \<Rightarrow> string \<Rightarrow> error + insertion_point" where
  "calculate_insertion_point ops ed w doc_id sect_name strat =
     (case analyze_document ed w doc_id of
        Inl e \<Rightarrow> Inl e
      | Inr sections \<Rightarrow>
          (case find_commented_ranges ed w doc_id of
             Inl e \<Rightarrow> Inl e
           | Inr commented_ranges \<Rightarrow>
               (if truthy sect_name then
                  (case find_section_boundaries ops sections (the sect_name) of
                     Some (section_start, section_end) \<Rightarrow>
                       (if strat = ''safe'' then
                          (let insertion_idx = section_end - 1;
                               affected = map comment_id
                                 (filter (\<lambda>cr. contains cr insertion_idx) commented_ranges)
                           in Inr \<lparr>index = insertion_idx, section_name = sect_name,
                                   safe = (length affected = 0), affected_comments = affected,
                                   strategy = ''after'',
                                   reason = ''End of section '' @ [CHR 0x22] @ the sect_name
                                     @ [CHR 0x22]\<rparr>)
                        else insert_at_document_end ed w doc_id ''Inserting at document end'')
                   | None \<Rightarrow>
                       insert_at_document_end ed w doc_id
                         (''Section '' @ [CHR 0x22] @ the sect_name @ [CHR 0x22]
                          @ '' not found, inserting at document end''))
                else insert_at_document_end ed w doc_id ''Inserting at document end'')))"

section \<open>Submitting a plan\<close>

definition simple_insert ::
  "'w editor \<Rightarrow> 'w \<Rightarrow> string \<Rightarrow> int \<Rightarrow> string \<Rightarrow> string option \<Rightarrow> bool \<Rightarrow> string option
     \<Rightarrow> bool \<times> 'w" where
  "simple_insert ed w doc_id idx content tab_id add_attr attribution_text =
     (case batchUpdate ed w doc_id
             (simple_insert_requests idx content tab_id add_attr attribution_text) of
        (Inl e, w') \<Rightarrow> (False, w')
      | (Inr u, w') \<Rightarrow> (True, w'))"

definition insert_with_comment_preservation ::
  "'w editor \<Rightarrow> 'w \<Rightarrow> string \<Rightarrow> int \<Rightarrow> string \<Rightarrow> commented_range \<Rightarrow> bool \<times> 'w" where
  "insert_with_comment_preservation ed w doc_id idx new_text cr =
     (case batchUpdate ed w doc_id (insert_with_comment_preservation_requests new_text cr) of
        (Inl e, w') \<Rightarrow> (False, w')
      | (Inr u, w') \<Rightarrow> (True, w'))"

definition insert_content ::
  "'w editor \<Rightarrow> 'w \<Rightarrow> string \<Rightarrow> int \<Rightarrow> string \<Rightarrow> string option \<Rightarrow> commented_range option
     \<Rightarrow> bool \<Rightarrow> string option \<Rightarrow> bool \<times> 'w" where
  "insert_content ed w doc_id idx content tab_id cr add_attr attribution_text =
     (case cr of
        Some r \<Rightarrow> insert_with_comment_preservation ed w doc_id idx content r
      | None \<Rightarrow> simple_insert ed w doc_id idx content tab_id add_attr attribution_text)"

section \<open>Attribution-time text search\<close>

text \<open>
  \<open>CommentManager._find_text_in_document\<close>, which \<open>create_comment_with_context\<close> runs
  on the document after the merge. Its \<open>while True\<close> loop need not end, so the search
  returns an \<open>option\<close>: \<open>None\<close> is a search that never returns.
\<close>

record text_match =
  paragraph_index :: int
  doc_start :: int
  match_length :: nat
  excerpt :: string

definition str_find_from :: "string \<Rightarrow> string \<Rightarrow> nat \<Rightarrow> nat option" where
  \<comment> \<open>\<open>s.find(t, pos)\<close>\<close>
  "str_find_from s t pos =
     (if pos > length s then None
      else (case str_find (drop pos s) t of None \<Rightarrow> None | Some i \<Rightarrow> Some (i + pos)))"

definition make_excerpt :: "text_ops \<Rightarrow> string \<Rightarrow> string \<Rightarrow> nat \<Rightarrow> string" where
  \<comment> \<open>40 characters on each side of the match, newlines as spaces, stripped\<close>
  "make_excerpt ops full_text search_text idx =
     (let excerpt_start = idx - 40;
          excerpt_end = min (length full_text) (idx + length search_text + 40)
      in strip ops (map (\<lambda>c. if c = CHR 0x0A then CHR 0x20 else c)
                 (drop excerpt_start (take excerpt_end full_text))))"

partial_function (option) find_occurrences ::
  "text_ops \<Rightarrow> string \<Rightarrow> string \<Rightarrow> int \<Rightarrow> int option \<Rightarrow> nat \<Rightarrow> text_match list \<Rightarrow> text_match list option" where
  "find_occurrences ops full_text search_text para_idx start_idx pos matches =
     (case str_find_from (lower ops full_text) (lower ops search_text) pos of
        None \<Rightarrow> Some matches
      | Some idx \<Rightarrow>
          find_occurrences ops full_text search_text para_idx start_idx (idx + length search_text)
            (matches @
             [\<lparr>paragraph_index = para_idx,
               doc_start = (case start_idx of None \<Rightarrow> 1 | Some i \<Rightarrow> if i = 0 then 1 else i)
                 + int idx,
               match_length = length search_text,
               excerpt = make_excerpt ops full_text search_text idx\<rparr>]))"

declare find_occurrences.simps [code]

fun text_parts :: "para_element list \<Rightarrow> string list" where
  \<comment> \<open>the contents of the text runs of a paragraph, in order\<close>
  "text_parts [] = []"
| "text_parts (e # es) =
     (case pe_textRun e of
        None \<Rightarrow> text_parts es
      | Some text_run \<Rightarrow>
          (case tr_content text_run of None \<Rightarrow> text_parts es | Some c \<Rightarrow> c # text_parts es))"

fun first_start_index :: "para_element list \<Rightarrow> int option" where
  \<comment> \<open>the \<open>startIndex\<close> of the first element that has one\<close>
  "first_start_index [] = None"
| "first_start_index (e # es) =
     (case pe_startIndex e of None \<Rightarrow> first_start_index es | Some i \<Rightarrow> Some i)"

fun find_text_in_elements ::
  "text_ops \<Rightarrow> element list \<Rightarrow> string \<Rightarrow> int \<Rightarrow> text_match list \<Rightarrow> text_match list option" where
  \<comment> \<open>the loop \<open>for content_elem in body.get('content', [])\<close>; \<open>para_idx\<close> is the index
      of the last paragraph counted. A paragraph that is the empty dictionary is skipped
      uncounted.\<close>
  "find_text_in_elements ops [] search_text para_idx matches = Some matches"
| "find_text_in_elements ops (content_elem # rest) search_text para_idx matches =
     (case el_paragraph content_elem of
        None \<Rightarrow> find_text_in_elements ops rest search_text para_idx matches
      | Some p \<Rightarrow>
          (if p_elements p = None \<and> p_namedStyleType p = None
           then find_text_in_elements ops rest search_text para_idx matches
           else if text_parts (elements_of p) = []
           then find_text_in_elements ops rest search_text (para_idx + 1) matches
           else (case find_occurrences ops (concat (text_parts (elements_of p))) search_text
                        (para_idx + 1) (first_start_index (elements_of p)) 0 matches of
                   None \<Rightarrow> None
                 | Some matches' \<Rightarrow>
                     find_text_in_elements ops rest search_text (para_idx + 1) matches')))"

definition find_text_in_document :: "text_ops \<Rightarrow> document \<Rightarrow> string \<Rightarrow> text_match list option" where
  "find_text_in_document ops doc search_text =
     find_text_in_elements ops (content_or doc []) search_text (- 1) []"

section \<open>Source comments\<close>

fun str_of_int :: "int \<Rightarrow> string" where
  \<comment> \<open>\<open>str(i)\<close>\<close>
  "str_of_int i = (if i < 0 then CHR ''-'' # str_of_nat (nat (- i)) else str_of_nat (nat i))"

definition comment_marker :: string where
  \<comment> \<open>the three characters that open the lines of a source comment in the source
      files, as their UTF-8 bytes\<close>
  "comment_marker = [CHR 0xC3, CHR 0xB0, CHR 0xC5, CHR 0xB8, CHR 0xE2, CHR 0x80, CHR 0x9C]"

definition create_comment ::
  "'w editor \<Rightarrow> 'w \<Rightarrow> string \<Rightarrow> string \<Rightarrow> (error + string option) \<times> 'w" where
  \<comment> \<open>\<open>CommentManager.create_comment\<close>: the call to the store; an exception is raised
      again\<close>
  "create_comment ed w doc_id content = comments_create ed w doc_id content"

definition except_http_error :: "(error + string option) \<times> 'w \<Rightarrow> (error + string option) \<times> 'w" where
  \<comment> \<open>\<open>except HttpError: return None\<close>; any other exception goes on to the caller\<close>
  "except_http_error r =
     (case r of
        (Inl (HttpError m), w') \<Rightarrow> (Inr None, w')
      | other \<Rightarrow> other)"

definition pick_occurrence :: "text_match list \<Rightarrow> nat \<Rightarrow> text_match" where
  \<comment> \<open>the requested occurrence of a list of matches that is not empty, the last one
      when there are fewer\<close>
  "pick_occurrence matches occurrence =
     matches ! (if occurrence \<ge> length matches then length matches - 1 else occurrence)"

definition contextual_content :: "string \<Rightarrow> text_match \<Rightarrow> string" where
  "contextual_content content match =
     content @ [CHR 0x0A, CHR 0x0A]
     @ comment_marker @ '' Location: Paragraph #'' @ str_of_int (paragraph_index match)
     @ [CHR 0x0A]
     @ comment_marker @ '' Context: '' @ [CHR 0x22] @ ''...'' @ excerpt match @ ''...''
     @ [CHR 0x22]"

definition create_comment_with_context ::
  "text_ops \<Rightarrow> 'w editor \<Rightarrow> 'w \<Rightarrow> string \<Rightarrow> string \<Rightarrow> string \<Rightarrow> nat
     \<Rightarrow> ((error + string option) \<times> 'w) option" where
  \<comment> \<open>\<open>CommentManager.create_comment_with_context\<close>. The outer \<open>None\<close> is a call that
      never returns, because its text search does not.\<close>
  "create_comment_with_context ops ed w doc_id content search_text occurrence =
     (case docs_get ed w doc_id of
        Inl e \<Rightarrow> Some (except_http_error (Inl e, w))
      | Inr doc \<Rightarrow>
          (case find_text_in_document ops doc search_text of
             None \<Rightarrow> None
           | Some matches \<Rightarrow>
               (if matches = [] then Some (Inr None, w)
                else Some (except_http_error
                       (comments_create ed w doc_id
                          (contextual_content content (pick_occurrence matches occurrence)))))))"

section \<open>Merge orchestrator\<close>

text \<open>
  The dictionary \<open>merge_content\<close> returns: \<open>success\<close> and \<open>message\<close> are in every
  result, the other keys only in some (\<open>None\<close>: the key is absent). The functions of
  this section return an \<open>option\<close>: \<open>None\<close> is a call that never returns.
\<close>

record merge_result =
  success :: bool
  message :: string
  requires_user_decision :: "bool option"
  res_affected_comments :: "string list option"
  res_insertion_point :: "insertion_point option"
  res_options :: "string list option"
  comments_preserved :: "nat option"
  new_comment_id :: "string option option"
  res_error :: "string option"

definition add_source_comment_phase ::
  "text_ops \<Rightarrow> 'w editor \<Rightarrow> 'w \<Rightarrow> string \<Rightarrow> string \<Rightarrow> string \<Rightarrow> (string option \<times> 'w) option" where
  \<comment> \<open>the inner \<open>try\<close> of \<open>merge_content\<close> (phase 4); an exception leaves
      \<open>new_comment_id\<close> as it was\<close>
  "add_source_comment_phase ops ed w doc_id formatted_content description =
     (let clean_content = strip ops formatted_content;
          search_length = min 50 (length clean_content);
          search_text = take search_length clean_content;
          comment_text = comment_marker @ '' Added from '' @ description
      in case create_comment_with_context ops ed w doc_id comment_text search_text 0 of
           None \<Rightarrow> None
         | Some (Inl e, w') \<Rightarrow> Some (None, w')
         | Some (Inr (Some cid), w') \<Rightarrow> Some (Some cid, w')
         | Some (Inr None, w') \<Rightarrow>
             (case create_comment ed w' doc_id comment_text of
                (Inl e, w'') \<Rightarrow> Some (None, w'')
              | (Inr cid, w'') \<Rightarrow> Some (cid, w'')))"

definition merge_content_try ::
  "text_ops \<Rightarrow> 'w editor \<Rightarrow> 'w \<Rightarrow> string \<Rightarrow> string \<Rightarrow> string option \<Rightarrow> merge_options
     \<Rightarrow> ((error + merge_result) \<times> 'w) option" where
  \<comment> \<open>the body of the outer \<open>try\<close> of \<open>merge_content\<close>: \<open>Inl\<close> is an exception on its
      way to the handler\<close>
  "merge_content_try ops ed w doc_url content section opts =
     (let doc_id = extract_doc_id ed doc_url;
          tab_id = extract_tab_id ed doc_url;
          strat = (if preserve_comments opts then ''safe'' else ''simple'')
      in case calculate_insertion_point ops ed w doc_id
                (if truthy section then section else target_section opts) strat of
           Inl e \<Rightarrow> Some (Inl e, w)
         | Inr ip \<Rightarrow>
             (if affected_comments ip \<noteq> [] \<and> comment_strategy opts = ''ask'' then
                Some (Inr \<lparr>success = False,
                      message = ''Insertion would affect ''
                        @ str_of_nat (length (affected_comments ip)) @ '' comment(s)'',
                      requires_user_decision = Some True,
                      res_affected_comments = Some (affected_comments ip),
                      res_insertion_point = Some ip,
                      res_options = Some [''insert_before'', ''insert_after'',
                        ''update_with_preservation''],
                      comments_preserved = None, new_comment_id = None, res_error = None\<rparr>, w)
              else
                (let formatted_content = format_content_for_insertion content
                 in case insert_content ed w doc_id (index ip) formatted_content tab_id None
                           (add_inline_attribution opts) (source_description opts) of
                      (False, w1) \<Rightarrow>
                        Some (Inr \<lparr>success = False, message = ''Failed to insert content'',
                              requires_user_decision = None, res_affected_comments = None,
                              res_insertion_point = Some ip, res_options = None,
                              comments_preserved = None, new_comment_id = None,
                              res_error = None\<rparr>, w1)
                    | (True, w1) \<Rightarrow>
                        (case (if add_source_comment opts \<and> truthy (source_description opts)
                               then add_source_comment_phase ops ed w1 doc_id formatted_content
                                      (the (source_description opts))
                               else Some (None, w1)) of
                           None \<Rightarrow> None
                         | Some (cid, w2) \<Rightarrow>
                             Some (Inr \<lparr>success = True,
                                   message = ''Content inserted successfully. '' @ reason ip,
                                   requires_user_decision = None, res_affected_comments = None,
                                   res_insertion_point = Some ip, res_options = None,
                                   comments_preserved = Some (length (affected_comments ip)),
                                   new_comment_id = Some cid, res_error = None\<rparr>, w2)))))"

definition merge_content ::
  "text_ops \<Rightarrow> 'w editor \<Rightarrow> 'w \<Rightarrow> string \<Rightarrow> string \<Rightarrow> string option \<Rightarrow> merge_options option
     \<Rightarrow> ((error + merge_result) \<times> 'w) option" where
  \<comment> \<open>\<open>Inl\<close> would be an exception that leaves \<open>merge_content\<close>; the handler
      \<open>except Exception\<close> turns each one into a result\<close>
  "merge_content ops ed w doc_url content section options =
     (let opts = (case options of None \<Rightarrow> default_merge_options | Some opts \<Rightarrow> opts)
      in case merge_content_try ops ed w doc_url content section opts of
           None \<Rightarrow> None
         | Some (Inl e, w') \<Rightarrow>
             Some (Inr \<lparr>success = False, message = ''Error: '' @ str_of_error e,
                   requires_user_decision = None, res_affected_comments = None,
                   res_insertion_point = None, res_options = None, comments_preserved = None,
                   new_comment_id = None, res_error = Some (str_of_error e)\<rparr>, w')
         | Some (Inr r, w') \<Rightarrow> Some (Inr r, w'))"

section \<open>The text of a document\<close>

text \<open>
  What the specification calls the text runs of a document in document order: the runs
  of each block's paragraph, then those of its table, cell by cell. The resolver and the
  attribution search are compared against this reading of the document.
\<close>

fun text_elements :: "element list \<Rightarrow> para_element list"
  and rows_text_elements :: "element list list list \<Rightarrow> para_element list"
  and cells_text_elements :: "element list list \<Rightarrow> para_element list" where
  "text_elements [] = []"
| "text_elements (Element si ei para tbl # rest) =
     (case para of None \<Rightarrow> [] | Some p \<Rightarrow> elements_of p)
     @ (case tbl of None \<Rightarrow> [] | Some rows \<Rightarrow> rows_text_elements rows)
     @ text_elements rest"
| "rows_text_elements [] = []"
| "rows_text_elements (row # rows) = cells_text_elements row @ rows_text_elements rows"
| "cells_text_elements [] = []"
| "cells_text_elements (cell # cells) = text_elements cell @ cells_text_elements cells"

definition run_content :: "para_element \<Rightarrow> string option" where
  \<comment> \<open>the text of a text run; \<open>None\<close> for an element that is no text run\<close>
  "run_content e =
     (case pe_textRun e of
        None \<Rightarrow> None
      | Some text_run \<Rightarrow> Some (case tr_content text_run of None \<Rightarrow> [] | Some c \<Rightarrow> c))"

definition run_start :: "para_element \<Rightarrow> int" where
  "run_start e = (case pe_startIndex e of None \<Rightarrow> 0 | Some i \<Rightarrow> i)"

definition run_holds :: "string \<Rightarrow> para_element \<Rightarrow> bool" where
  \<comment> \<open>the text occurs within this one text run\<close>
  "run_holds t e = (case run_content e of None \<Rightarrow> False | Some c \<Rightarrow> str_in t c)"

definition occurs_at :: "string \<Rightarrow> string \<Rightarrow> nat \<Rightarrow> bool" where
  \<comment> \<open>\<open>s[i : i + len(t)] == t\<close>, the slice inside \<open>s\<close>\<close>
  "occurs_at t s i = (i + length t \<le> length s \<and> take (length t) (drop i s) = t)"

definition document_text :: "element list \<Rightarrow> string" where
  \<comment> \<open>the text of the document: its text runs one after the other\<close>
  "document_text es = concat (map (\<lambda>e. case run_content e of None \<Rightarrow> [] | Some c \<Rightarrow> c)
                               (text_elements es))"

definition no_tables :: "element list \<Rightarrow> bool" where
  \<comment> \<open>every block is a top-level block without a table\<close>
  "no_tables es = list_all (\<lambda>e. el_table e = None) es"

definition text_at :: "element list \<Rightarrow> int \<Rightarrow> char \<Rightarrow> bool" where
  \<comment> \<open>the document has this character at this absolute offset: some text run that
      starts at \<open>s\<close> has it at position \<open>i - s\<close>\<close>
  "text_at es i ch =
     list_ex (\<lambda>e. case run_content e of
                     None \<Rightarrow> False
                   | Some c \<Rightarrow> run_start e \<le> i \<and> i < run_start e + int (length c)
                               \<and> c ! nat (i - run_start e) = ch)
       (text_elements es)"

definition substring_at :: "element list \<Rightarrow> int \<Rightarrow> string \<Rightarrow> bool" where
  \<comment> \<open>the document substring at \<open>[start, start + len(t))\<close> equals \<open>t\<close>\<close>
  "substring_at es start t =
     list_all (\<lambda>k. text_at es (start + int k) (t ! k)) [0..<length t]"

definition keeps_occurrences :: "text_ops \<Rightarrow> string \<Rightarrow> bool" where
  \<comment> \<open>lower-casing keeps every occurrence of \<open>t\<close>: wherever \<open>t\<close> stands in a text, the
      lower-cased \<open>t\<close> stands in the lower-cased text. It holds for every lower-casing
      that works character by character, and not for Python's on every text.\<close>
  "keeps_occurrences ops t = (\<forall>p q. str_in (lower ops t) (lower ops (p @ t @ q)))"

section \<open>Lower case and white space below code point 256\<close>

text \<open>
  Python's \<open>str.lower\<close> and \<open>str.isspace\<close> on strings of code points below 256, where
  lower-casing is character by character: the capitals \<open>A\<close> to \<open>Z\<close> and those from
  \<open>0xC0\<close> to \<open>0xDE\<close> but the multiplication sign \<open>0xD7\<close> go 32 up, every other
  character stays.
\<close>

definition latin1_capitals :: string where
  "latin1_capitals =
     ''ABCDEFGHIJKLMNOPQRSTUVWXYZ''
     @ [CHR 0xC0, CHR 0xC1, CHR 0xC2, CHR 0xC3, CHR 0xC4, CHR 0xC5, CHR 0xC6, CHR 0xC7,
        CHR 0xC8, CHR 0xC9, CHR 0xCA, CHR 0xCB, CHR 0xCC, CHR 0xCD, CHR 0xCE, CHR 0xCF,
        CHR 0xD0, CHR 0xD1, CHR 0xD2, CHR 0xD3, CHR 0xD4, CHR 0xD5, CHR 0xD6,
        CHR 0xD8, CHR 0xD9, CHR 0xDA, CHR 0xDB, CHR 0xDC, CHR 0xDD, CHR 0xDE]"

definition latin1_smalls :: string where
  "latin1_smalls =
     ''abcdefghijklmnopqrstuvwxyz''
     @ [CHR 0xE0, CHR 0xE1, CHR 0xE2, CHR 0xE3, CHR 0xE4, CHR 0xE5, CHR 0xE6, CHR 0xE7,
        CHR 0xE8, CHR 0xE9, CHR 0xEA, CHR 0xEB, CHR 0xEC, CHR 0xED, CHR 0xEE, CHR 0xEF,
        CHR 0xF0, CHR 0xF1, CHR 0xF2, CHR 0xF3, CHR 0xF4, CHR 0xF5, CHR 0xF6,
        CHR 0xF8, CHR 0xF9, CHR 0xFA, CHR 0xFB, CHR 0xFC, CHR 0xFD, CHR 0xFE]"

definition latin1_lower_char :: "char \<Rightarrow> char" where
  "latin1_lower_char c =
     (case map_of (zip latin1_capitals latin1_smalls) c of None \<Rightarrow> c | Some l \<Rightarrow> l)"

definition latin1_isspace :: "char \<Rightarrow> bool" where
  "latin1_isspace c =
     (c \<in> set [CHR 0x09, CHR 0x0A, CHR 0x0B, CHR 0x0C, CHR 0x0D,
                CHR 0x1C, CHR 0x1D, CHR 0x1E, CHR 0x1F, CHR 0x20, CHR 0x85, CHR 0xA0])"

definition latin1 :: text_ops where
  "latin1 = \<lparr>lower = map latin1_lower_char, isspace = latin1_isspace\<rparr>"

section \<open>Example stores\<close>

text \<open>
  Concrete collaborators, to run the definitions on: a store that logs the batches and
  the comments it has accepted, an editor that serves one fixed document, an editor
  whose document the caller may not read, and an editor whose comment store fails.
\<close>

record store =
  st_batches :: "request list list"
  st_comments :: "string list"

definition empty_store :: store where
  "empty_store = \<lparr>st_batches = [], st_comments = []\<rparr>"

definition serving_editor :: "document \<Rightarrow> doc_section list \<Rightarrow> comment list \<Rightarrow> store editor" where
  "serving_editor doc sections comments =
     \<lparr>extract_doc_id = (\<lambda>url. url),
      extract_tab_id = (\<lambda>url. None),
      get_document = (\<lambda>w doc_id. Inr doc),
      analyze_document = (\<lambda>w doc_id. Inr sections),
      get_comments = (\<lambda>w doc_id. Inr comments),
      batchUpdate = (\<lambda>w doc_id rs. (Inr (), w\<lparr>st_batches := st_batches w @ [rs]\<rparr>)),
      docs_get = (\<lambda>w doc_id. Inr doc),
      comments_create =
        (\<lambda>w doc_id c. (Inr (Some ''comment-1''), w\<lparr>st_comments := st_comments w @ [c]\<rparr>))\<rparr>"

definition denied_editor :: "store editor" where
  "denied_editor =
     \<lparr>extract_doc_id = (\<lambda>url. url),
      extract_tab_id = (\<lambda>url. None),
      get_document = (\<lambda>w doc_id. Inl (PermissionError ''No permission to access document'')),
      analyze_document = (\<lambda>w doc_id. Inl (PermissionError ''No permission to access document'')),
      get_comments = (\<lambda>w doc_id. Inr []),
      batchUpdate = (\<lambda>w doc_id rs. (Inr (), w\<lparr>st_batches := st_batches w @ [rs]\<rparr>)),
      docs_get = (\<lambda>w doc_id. Inl (HttpError ''The caller does not have permission'')),
      comments_create =
        (\<lambda>w doc_id c. (Inr (Some ''comment-1''), w\<lparr>st_comments := st_comments w @ [c]\<rparr>))\<rparr>"

definition no_comments_editor :: "document \<Rightarrow> store editor" where
  \<comment> \<open>serves the document and accepts batches, but its comment store refuses every
      new comment\<close>
  "no_comments_editor doc =
     \<lparr>extract_doc_id = (\<lambda>url. url),
      extract_tab_id = (\<lambda>url. None),
      get_document = (\<lambda>w doc_id. Inr doc),
      analyze_document = (\<lambda>w doc_id. Inr []),
      get_comments = (\<lambda>w doc_id. Inr []),
      batchUpdate = (\<lambda>w doc_id rs. (Inr (), w\<lparr>st_batches := st_batches w @ [rs]\<rparr>)),
      docs_get = (\<lambda>w doc_id. Inr doc),
      comments_create = (\<lambda>w doc_id c. (Inl (HttpError ''Comment store unavailable''), w))\<rparr>"

definition text_paragraph :: "int \<Rightarrow> string list \<Rightarrow> element" where
  \<comment> \<open>a paragraph block that starts at the given offset, one text run per string\<close>
  "text_paragraph start runs =
     Element (Some start) (Some (start + int (length (concat runs))))
       (Some \<lparr>p_elements =
                Some (map (\<lambda>(off, r). \<lparr>pe_startIndex = Some (start + int off),
                                        pe_textRun = Some \<lparr>tr_content = Some r\<rparr>\<rparr>)
                        (zip (map (\<lambda>k. length (concat (take k runs))) [0..<length runs]) runs)),
              p_namedStyleType = Some ''NORMAL_TEXT''\<rparr>)
       None"

definition section_break :: element where
  \<comment> \<open>the block every document of the store opens with\<close>
  "section_break = Element None (Some 1) None None"

definition doc_of :: "element list \<Rightarrow> document" where
  "doc_of es = \<lparr>doc_body = Some \<lparr>body_content = Some es\<rparr>\<rparr>"

definition hello_doc :: document where
  \<comment> \<open>one paragraph, \<open>Hello\<close> and its newline at offsets 1 to 6\<close>
  "hello_doc = doc_of [section_break, text_paragraph 1 [''Hello'' @ [CHR 0x0A]]]"

definition notes_doc :: document where
  \<comment> \<open>a heading \<open>Notes\<close> at offsets 1 to 6 and a paragraph \<open>Hello\<close> at 7 to 12\<close>
  "notes_doc = doc_of [section_break, text_paragraph 1 [''Notes'' @ [CHR 0x0A]],
                       text_paragraph 7 [''Hello'' @ [CHR 0x0A]]]"

definition notes_sections :: "doc_section list" where
  "notes_sections =
     [\<lparr>heading = ''Notes'', sec_start_index = Some 1, sec_end_index = Some 13\<rparr>]"

definition hello_comment :: comment where
  "hello_comment = \<lparr>cm_comment_id = ''c1'', cm_content = ''check'', cm_anchor = Some ''Hello''\<rparr>"

definition paragraph_matches :: "text_ops \<Rightarrow> string \<Rightarrow> element \<Rightarrow> bool" where
  \<comment> \<open>the block is a paragraph with text runs, and the text, lower-cased, occurs in the
      lower-cased concatenation of the paragraph's text runs\<close>
  "paragraph_matches ops t e =
     (case el_paragraph e of
        None \<Rightarrow> False
      | Some p \<Rightarrow>
          text_parts (elements_of p) \<noteq> []
          \<and> str_in (lower ops t) (lower ops (concat (text_parts (elements_of p)))))"

definition two_runs_doc :: document where
  \<comment> \<open>one paragraph in two text runs, \<open>Hello\<close> with a blank at offsets 1 to 6 and
      \<open>world\<close> with its newline at 7 to 12\<close>
  "two_runs_doc = doc_of [section_break, text_paragraph 1 [''Hello '', ''world'' @ [CHR 0x0A]]]"

definition table_doc :: document where
  \<comment> \<open>a table of one row and one cell, the cell holding the paragraph \<open>abc\<close>\<close>
  "table_doc =
     doc_of [section_break,
             Element (Some 1) (Some 9) None (Some [[[text_paragraph 4 [''abc'' @ [CHR 0x0A]]]]])]"

definition anchor_comment :: "string \<Rightarrow> string \<Rightarrow> comment" where
  "anchor_comment cid a = \<lparr>cm_comment_id = cid, cm_content = ''check'', cm_anchor = Some a\<rparr>"

definition ete_doc :: document where
  \<comment> \<open>one paragraph, the French word for summer in small letters: \<open>0xE9\<close>, \<open>t\<close>,
      \<open>0xE9\<close> and the newline\<close>
  "ete_doc = doc_of [section_break, text_paragraph 1 [[CHR 0xE9, CHR ''t'', CHR 0xE9, CHR 0x0A]]]"

section \<open>The padding formatter\<close>

lemma format_startswith_newline: "startswith (format_content_for_insertion s) [CHR 0x0A]"
  by (cases s) (auto simp: format_content_for_insertion_def startswith_def Let_def)

lemma format_endswith_newline: "endswith (format_content_for_insertion s) [CHR 0x0A]"
  by (auto simp: format_content_for_insertion_def endswith_def Let_def)

lemma format_fixed:
  "startswith t [CHR 0x0A] \<Longrightarrow> endswith t [CHR 0x0A] \<Longrightarrow> format_content_for_insertion t = t"
  by (simp add: format_content_for_insertion_def Let_def)

text \<open>
  C8. The content padding formatter is idempotent: formatting content that has been
  formatted already returns it as it is, so no second pair of blank lines is added at
  either end.
\<close>

theorem format_content_idempotent:
  "format_content_for_insertion (format_content_for_insertion s) = format_content_for_insertion s"
  by (rule format_fixed [OF format_startswith_newline format_endswith_newline])

section \<open>Case B: replacing the text of a commented range\<close>

lemma apply_insert_at:
  "apply_request (InsertText (int (length xs)) tab t) (xs @ ys) = Some (xs @ t @ ys)"
  by simp

lemma apply_delete_at:
  "zs \<noteq> [] \<Longrightarrow>
   apply_request (DeleteContentRange (int (length xs)) (int (length xs) + int (length zs)))
     (xs @ zs @ ys) = Some (xs @ ys)"
  by (simp add: nat_add_distrib)

lemma apply_batch_append:
  "apply_batch (rs @ rs') buf =
     (case apply_batch rs buf of None \<Rightarrow> None | Some b \<Rightarrow> apply_batch rs' b)"
  by (induction rs arbitrary: buf) (auto split: option.splits)

lemma preservation_plan_shape:
  assumes s: "start_index cr = int a" and e: "end_index cr = int a + int n" and n: "0 < n"
  shows "insert_with_comment_preservation_requests U cr =
     [InsertText (int (a + n div 2)) None U,
      DeleteContentRange (int (a + n div 2) + int (length U))
        (int (a + n div 2) + int (n - n div 2) + int (length U))]
     @ (if 0 < n div 2 then [DeleteContentRange (int a) (int a + int (n div 2))] else [])"
proof -
  have d: "(end_index cr - start_index cr) div 2 = int (n div 2)"
    by (simp add: s e zdiv_int)
  have lt: "n div 2 < n" using n by simp
  show ?thesis
    unfolding insert_with_comment_preservation_requests_def Let_def d
    using lt by (simp add: s e)
qed

text \<open>
  C1. Case B round trip. A buffer holds the text \<open>T\<close> of a commented range, not empty,
  between \<open>pre\<close> and \<open>post\<close>, so the range is from \<open>length pre\<close> to
  \<open>length pre + length T\<close>. The store accepts every step of the plan the sequencer
  builds for a replacement \<open>U\<close>, each step read against the text the steps before it
  left, and the text it ends with is \<open>pre\<close>, then \<open>U\<close>, then \<open>post\<close>: exactly \<open>U\<close> where
  \<open>T\<close> stood, nothing of \<open>T\<close> left, and a length changed by
  \<open>length U - length T\<close>.
\<close>

theorem case_b_round_trip:
  assumes T: "T \<noteq> []"
    and s: "start_index cr = int (length pre)"
    and e: "end_index cr = start_index cr + int (length T)"
  shows "apply_batch (insert_with_comment_preservation_requests U cr) (pre @ T @ post)
           = Some (pre @ U @ post)
         \<and> int (length (pre @ U @ post))
           = int (length (pre @ T @ post)) + (int (length U) - int (length T))"
proof
  define h where "h = length T div 2"
  define hd_T where "hd_T = take h T"
  define tl_T where "tl_T = drop h T"
  have n: "0 < length T" using T by simp
  then have hlt: "h < length T" by (simp add: h_def)
  have split: "T = hd_T @ tl_T" by (simp add: hd_T_def tl_T_def)
  have lh: "length hd_T = h" using hlt by (simp add: hd_T_def)
  have lt: "length tl_T = length T - h" by (simp add: tl_T_def)
  have tl_ne: "tl_T \<noteq> []" using hlt lt by auto
  have e': "end_index cr = int (length pre) + int (length T)" using s e by simp
  have plan: "insert_with_comment_preservation_requests U cr =
     [InsertText (int (length (pre @ hd_T))) None U,
      DeleteContentRange (int (length (pre @ hd_T @ U)))
        (int (length (pre @ hd_T @ U)) + int (length tl_T))]
     @ (if hd_T \<noteq> []
        then [DeleteContentRange (int (length pre)) (int (length pre) + int (length hd_T))]
        else [])"
  proof -
    have hd_iff: "hd_T \<noteq> [] \<longleftrightarrow> 0 < h" using lh by auto
    show ?thesis
      using preservation_plan_shape [OF s e' n, of U]
      by (simp add: lh lt hd_iff h_def [symmetric])
  qed
  have 1: "apply_request (InsertText (int (length (pre @ hd_T))) None U) (pre @ T @ post)
        = Some ((pre @ hd_T @ U) @ tl_T @ post)"
    using apply_insert_at [of "pre @ hd_T" None U "tl_T @ post"]
    by (simp only: split append_assoc)
  have 2: "apply_request
             (DeleteContentRange (int (length (pre @ hd_T @ U)))
                (int (length (pre @ hd_T @ U)) + int (length tl_T)))
             ((pre @ hd_T @ U) @ tl_T @ post)
        = Some (pre @ hd_T @ U @ post)"
    using apply_delete_at [OF tl_ne, of "pre @ hd_T @ U" post] by (simp only: append_assoc)
  have 3: "hd_T \<noteq> [] \<Longrightarrow>
        apply_request
          (DeleteContentRange (int (length pre)) (int (length pre) + int (length hd_T)))
          (pre @ hd_T @ U @ post)
        = Some (pre @ U @ post)"
    by (rule apply_delete_at)
  have two: "apply_batch [InsertText (int (length (pre @ hd_T))) None U,
      DeleteContentRange (int (length (pre @ hd_T @ U)))
        (int (length (pre @ hd_T @ U)) + int (length tl_T))]
      (pre @ T @ post) = Some (pre @ hd_T @ U @ post)"
    by (simp only: apply_batch.simps 1 2 option.case)
  have rest: "apply_batch
      (if hd_T \<noteq> []
       then [DeleteContentRange (int (length pre)) (int (length pre) + int (length hd_T))]
       else [])
      (pre @ hd_T @ U @ post) = Some (pre @ U @ post)"
  proof (cases "hd_T = []")
    case True
    then show ?thesis by simp
  next
    case False
    then show ?thesis
      by (simp only: 3 [OF False] apply_batch.simps if_True not_False_eq_True option.case)
  qed
  show "apply_batch (insert_with_comment_preservation_requests U cr) (pre @ T @ post)
           = Some (pre @ U @ post)"
    by (simp only: plan apply_batch_append two rest option.case)
next
  show "int (length (pre @ U @ post))
           = int (length (pre @ T @ post)) + (int (length U) - int (length T))"
    by simp
qed

theorem case_b_round_trip_witness:
  "apply_batch
     (insert_with_comment_preservation_requests ''NEW''
        \<lparr>start_index = 3, end_index = 8, comment_id = ''c1'', comment_content = ''check'',
         anchor_text = ''Hello''\<rparr>)
     ''ab Hello yz'' = Some ''ab NEW yz''"
  using case_b_round_trip [of "''Hello''"
      "\<lparr>start_index = 3, end_index = 8, comment_id = ''c1'', comment_content = ''check'',
        anchor_text = ''Hello''\<rparr>" "''ab ''" "''NEW''" "'' yz''"]
  by simp

text \<open>
  C9. Every delete the Case B sequencer emits has its start strictly below its end. The
  plan is the insert followed by at most two deletes, each of a range that is not empty
  and not inverted, whatever the commented range is; for a range that is empty or
  inverted the plan is the insert alone, and for a range of length one it is the insert
  and the delete of the tail.
\<close>

theorem case_b_deletes_nonempty:
  "(\<exists>ds. insert_with_comment_preservation_requests U cr =
          InsertText (start_index cr + (end_index cr - start_index cr) div 2) None U # ds
        \<and> length ds \<le> 2
        \<and> (\<forall>d \<in> set ds. \<exists>s e. d = DeleteContentRange s e \<and> s < e))
   \<and> (end_index cr \<le> start_index cr \<longrightarrow>
        insert_with_comment_preservation_requests U cr =
          [InsertText (start_index cr + (end_index cr - start_index cr) div 2) None U])
   \<and> (end_index cr = start_index cr + 1 \<longrightarrow>
        insert_with_comment_preservation_requests U cr =
          [InsertText (start_index cr) None U,
           DeleteContentRange (start_index cr + int (length U))
             (start_index cr + 1 + int (length U))])"
  by (auto simp: insert_with_comment_preservation_requests_def Let_def)

theorem case_b_deletes_nonempty_witness:
  "insert_with_comment_preservation_requests ''xy''
      \<lparr>start_index = 10, end_index = 11, comment_id = ''c1'', comment_content = ''note'',
       anchor_text = ''a''\<rparr>
    = [InsertText 10 None ''xy'', DeleteContentRange 12 13]
   \<and> insert_with_comment_preservation_requests ''xy''
      \<lparr>start_index = 10, end_index = 10, comment_id = ''c1'', comment_content = ''note'',
       anchor_text = []\<rparr>
    = [InsertText 10 None ''xy'']"
  using case_b_deletes_nonempty [of "''xy''"
      "\<lparr>start_index = 10, end_index = 11, comment_id = ''c1'', comment_content = ''note'',
        anchor_text = ''a''\<rparr>"]
    case_b_deletes_nonempty [of "''xy''"
      "\<lparr>start_index = 10, end_index = 10, comment_id = ''c1'', comment_content = ''note'',
        anchor_text = []\<rparr>"]
  by simp

section \<open>Case A: the plain insertion\<close>

text \<open>
  C4, as the code has it. The code appends the attribution steps only when inline
  attribution is requested and the description is present and not empty. Then the
  batch is, in order: the insert of the content at the offset; the paragraph style
  \<open>NORMAL_TEXT\<close> over the inserted content; the insert of \<open>(from: d)\<close> with its leading
  blank at the end of the inserted content; the text style, italic and a colour that
  is not black, over the appended attribution. For no request, no description or an
  empty one, the batch is the first two steps. On a buffer the batch with attribution
  puts the content and then the attribution at the offset.
\<close>

theorem case_a_batch:
  assumes d: "d \<noteq> []"
  shows "simple_insert_requests i c tab True (Some d) =
           [InsertText i (tab_location tab) c,
            UpdateParagraphStyle i (i + int (length c)) ''NORMAL_TEXT'' ''namedStyleType'',
            InsertText (i + int (length c)) (tab_location tab) ('' (from: '' @ d @ '')''),
            UpdateTextStyle (i + int (length c))
              (i + int (length c) + int (length ('' (from: '' @ d @ '')'')))
              True (0.6, 0.2, 0.8) ''italic,foregroundColor'']
       \<and> simple_insert_requests i c tab False a =
           [InsertText i (tab_location tab) c,
            UpdateParagraphStyle i (i + int (length c)) ''NORMAL_TEXT'' ''namedStyleType'']
       \<and> simple_insert_requests i c tab True None = simple_insert_requests i c tab False a
       \<and> simple_insert_requests i c tab True (Some []) = simple_insert_requests i c tab False a
       \<and> ((0.6, 0.2, 0.8) :: real \<times> real \<times> real) \<noteq> (0, 0, 0)
       \<and> apply_batch (simple_insert_requests (int (length pre)) c tab True (Some d)) (pre @ post)
           = Some (pre @ c @ '' (from: '' @ d @ '')'' @ post)"
  using d by (simp add: simple_insert_requests_def truthy_def Let_def nat_add_distrib)

theorem case_a_batch_witness:
  "simple_insert_requests 5 ''ab'' None True (Some ''m'') =
     [InsertText 5 None ''ab'', UpdateParagraphStyle 5 7 ''NORMAL_TEXT'' ''namedStyleType'',
      InsertText 7 None '' (from: m)'',
      UpdateTextStyle 7 17 True (0.6, 0.2, 0.8) ''italic,foregroundColor'']"
  using case_a_batch [of "''m''" 5 "''ab''" None] by (simp add: tab_location_def truthy_def)

theorem case_a_empty_description_counterexample:
  "simple_insert_requests 5 ''ab'' None True (Some [])
     = [InsertText 5 None ''ab'', UpdateParagraphStyle 5 7 ''NORMAL_TEXT'' ''namedStyleType'']"
  by (simp add: simple_insert_requests_def truthy_def tab_location_def)

section \<open>Substring search\<close>

lemma occurs_at_Cons_Suc: "occurs_at t (c # s) (Suc i) = occurs_at t s i"
  by (simp add: occurs_at_def)

lemma occurs_at_0: "occurs_at t s 0 = startswith s t"
proof -
  have "length t \<le> length s" if "take (length t) s = t"
  proof -
    have "length (take (length t) s) = length t" using that by simp
    then show ?thesis by simp
  qed
  then show ?thesis by (auto simp: occurs_at_def startswith_def)
qed

lemma str_find_Some:
  "str_find s t = Some i \<Longrightarrow> occurs_at t s i \<and> (\<forall>j<i. \<not> occurs_at t s j)"
proof (induction s arbitrary: i)
  case Nil
  then show ?case by (auto simp: occurs_at_def split: if_splits)
next
  case (Cons c s)
  show ?case
  proof (cases "startswith (c # s) t")
    case True
    with Cons.prems show ?thesis by (simp add: occurs_at_0)
  next
    case False
    with Cons.prems obtain i' where i': "str_find s t = Some i'" "i = Suc i'"
      by (auto split: option.splits)
    from Cons.IH [OF i'(1)] have ih: "occurs_at t s i'" "\<forall>j<i'. \<not> occurs_at t s j" by simp_all
    have "\<not> occurs_at t (c # s) j" if "j < i" for j
    proof (cases j)
      case 0
      then show ?thesis using False by (simp add: occurs_at_0)
    next
      case (Suc j')
      then show ?thesis using that ih(2) i'(2) by (simp add: occurs_at_Cons_Suc)
    qed
    then show ?thesis using ih(1) i'(2) by (simp add: occurs_at_Cons_Suc)
  qed
qed

lemma str_find_None: "str_find s t = None \<Longrightarrow> \<not> occurs_at t s i"
proof (induction s arbitrary: i)
  case Nil
  then show ?case by (auto simp: occurs_at_def split: if_splits)
next
  case (Cons c s)
  then have ns: "\<not> startswith (c # s) t" and n: "str_find s t = None"
    by (auto split: if_splits option.splits)
  show ?case
  proof (cases i)
    case 0
    then show ?thesis using ns by (simp add: occurs_at_0)
  next
    case (Suc i')
    then show ?thesis using Cons.IH [OF n] by (simp add: occurs_at_Cons_Suc)
  qed
qed

lemma occurs_at_iff: "occurs_at t s i \<longleftrightarrow> (\<exists>p q. s = p @ t @ q \<and> length p = i)"
proof
  assume o: "occurs_at t s i"
  then have "s = take i s @ t @ drop (i + length t) s"
    by (metis occurs_at_def append_take_drop_id drop_drop add.commute)
  moreover have "length (take i s) = i" using o by (simp add: occurs_at_def)
  ultimately show "\<exists>p q. s = p @ t @ q \<and> length p = i" by blast
next
  assume "\<exists>p q. s = p @ t @ q \<and> length p = i"
  then show "occurs_at t s i" by (auto simp: occurs_at_def)
qed

lemma str_in_iff: "str_in t s \<longleftrightarrow> (\<exists>p q. s = p @ t @ q)"
proof
  assume "str_in t s"
  then obtain i where "str_find s t = Some i" by (auto simp: str_in_def)
  then have "occurs_at t s i" using str_find_Some by blast
  then show "\<exists>p q. s = p @ t @ q" using occurs_at_iff by blast
next
  assume "\<exists>p q. s = p @ t @ q"
  then obtain p q where "s = p @ t @ q" by blast
  then have "occurs_at t s (length p)" using occurs_at_iff by blast
  then have "str_find s t \<noteq> None" using str_find_None by blast
  then show "str_in t s" by (simp add: str_in_def)
qed

section \<open>The annotation resolver\<close>

lemma find_in_text_elements_append:
  "find_in_text_elements (xs @ ys) t =
     (case find_in_text_elements xs t of
        Some r \<Rightarrow> Some r
      | None \<Rightarrow> find_in_text_elements ys t)"
  by (induction xs) (auto simp: Let_def split: option.splits)

lemma find_text_range_flat:
  "find_text_range es t = find_in_text_elements (text_elements es) t"
  "find_in_rows rows t = find_in_text_elements (rows_text_elements rows) t"
  "find_in_cells cells t = find_in_text_elements (cells_text_elements cells) t"
  by (induction es t and rows t and cells t rule: find_text_range_find_in_rows_find_in_cells.induct)
     (auto simp: find_in_text_elements_append split: option.splits)

lemma find_in_text_elements_none:
  "\<forall>e \<in> set xs. \<not> run_holds t e \<Longrightarrow> find_in_text_elements xs t = None"
  by (induction xs) (auto simp: run_holds_def run_content_def str_in_def Let_def split: option.splits)

lemma find_in_text_elements_hit:
  assumes c: "run_content e = Some c" and f: "str_find c t = Some off"
  shows "find_in_text_elements (e # ys) t =
           Some (run_start e + int off, run_start e + int off + int (length t))"
proof (cases "pe_textRun e")
  case None
  then show ?thesis using c by (simp add: run_content_def)
next
  case (Some text_run)
  then have "(case tr_content text_run of None \<Rightarrow> [] | Some c \<Rightarrow> c) = c"
    using c by (simp add: run_content_def)
  then show ?thesis using Some f by (simp add: run_start_def Let_def)
qed

lemma find_in_text_elements_first:
  assumes pre: "\<forall>x \<in> set pre. \<not> run_holds t x"
    and c: "run_content e = Some c" and f: "str_find c t = Some off"
  shows "find_in_text_elements (pre @ e # post) t =
           Some (run_start e + int off, run_start e + int off + int (length t))"
  by (simp only: find_in_text_elements_append find_in_text_elements_none [OF pre]
      find_in_text_elements_hit [OF c f] option.case)

lemma resolve_single:
  "resolve_comments es [A] =
     (if \<not> truthy (cm_anchor A) then []
      else (case find_text_range es (the (cm_anchor A)) of
              None \<Rightarrow> []
            | Some (s, e) \<Rightarrow>
                [\<lparr>start_index = s, end_index = e, comment_id = cm_comment_id A,
                  comment_content = cm_content A, anchor_text = the (cm_anchor A)\<rparr>]))"
  by (simp add: Let_def split: option.splits)

lemma resolve_comments_append:
  "resolve_comments es (xs @ ys) = resolve_comments es xs @ resolve_comments es ys"
  by (induction xs) (auto simp: Let_def split: option.splits)

lemma resolve_comments_concat:
  "resolve_comments es cms = concat (map (\<lambda>A. resolve_comments es [A]) cms)"
proof (induction cms)
  case Nil
  then show ?case by simp
next
  case (Cons A cms)
  have "resolve_comments es (A # cms) = resolve_comments es [A] @ resolve_comments es cms"
    using resolve_comments_append [of es "[A]" cms] by simp
  with Cons show ?case by simp
qed

lemma substring_at_run:
  assumes e: "e \<in> set (text_elements es)" and c: "run_content e = Some c"
    and o: "occurs_at t c off"
  shows "substring_at es (run_start e + int off) t"
proof -
  have "text_at es (run_start e + int off + int k) (t ! k)" if k: "k < length t" for k
  proof -
    from o have len: "off + length t \<le> length c" and tk: "take (length t) (drop off c) = t"
      by (simp_all add: occurs_at_def)
    have "take (length t) (drop off c) ! k = c ! (off + k)" using k len by simp
    with tk have ck: "c ! (off + k) = t ! k" by simp
    have "nat (run_start e + int off + int k - run_start e) = off + k" by simp
    moreover have "run_start e + int off + int k < run_start e + int (length c)"
      using k len by simp
    ultimately show ?thesis
      unfolding text_at_def list_ex_iff using e c ck by (intro bexI [of _ e]) simp_all
  qed
  then show ?thesis by (simp add: substring_at_def list_all_iff)
qed

lemma resolve_one_found:
  assumes a: "cm_anchor A = Some t" and t: "t \<noteq> []"
    and h: "\<exists>e \<in> set (text_elements es). run_holds t e"
  shows "\<exists>pre e post c off.
           text_elements es = pre @ e # post
           \<and> (\<forall>x \<in> set pre. \<not> run_holds t x)
           \<and> run_content e = Some c
           \<and> occurs_at t c off \<and> (\<forall>j<off. \<not> occurs_at t c j)
           \<and> substring_at es (run_start e + int off) t
           \<and> resolve_comments es [A] =
               [\<lparr>start_index = run_start e + int off,
                 end_index = run_start e + int off + int (length t),
                 comment_id = cm_comment_id A, comment_content = cm_content A,
                 anchor_text = t\<rparr>]"
proof -
  from h obtain pre e post where sp: "text_elements es = pre @ e # post"
      and he: "run_holds t e" and pre: "\<forall>x \<in> set pre. \<not> run_holds t x"
    using split_list_first_prop [of "text_elements es" "run_holds t"] by blast
  from he obtain c where c: "run_content e = Some c" and "str_in t c"
    by (auto simp: run_holds_def split: option.splits)
  then obtain off where f: "str_find c t = Some off" by (auto simp: str_in_def)
  have r: "find_text_range es t =
           Some (run_start e + int off, run_start e + int off + int (length t))"
    by (simp only: find_text_range_flat(1) sp find_in_text_elements_first [OF pre c f])
  have res: "resolve_comments es [A] =
               [\<lparr>start_index = run_start e + int off,
                 end_index = run_start e + int off + int (length t),
                 comment_id = cm_comment_id A, comment_content = cm_content A,
                 anchor_text = t\<rparr>]"
    using t by (simp add: resolve_single a r truthy_def)
  have "e \<in> set (text_elements es)" by (simp add: sp)
  from substring_at_run [OF this c] str_find_Some [OF f]
  have sub: "substring_at es (run_start e + int off) t" by blast
  from sp pre c str_find_Some [OF f] sub res show ?thesis by blast
qed

lemma resolve_one_none:
  assumes "cm_anchor A = None \<or> cm_anchor A = Some []
           \<or> (\<forall>e \<in> set (text_elements es). \<not> run_holds (the (cm_anchor A)) e)"
  shows "resolve_comments es [A] = []"
proof (cases "truthy (cm_anchor A)")
  case False
  then show ?thesis by (simp add: resolve_single)
next
  case True
  then have "\<forall>e \<in> set (text_elements es). \<not> run_holds (the (cm_anchor A)) e"
    using assms by (auto simp: truthy_def)
  then have "find_text_range es (the (cm_anchor A)) = None"
    by (simp only: find_text_range_flat(1) find_in_text_elements_none)
  then show ?thesis by (simp add: resolve_single)
qed

text \<open>
  C3, as the code has it. The resolver looks for an anchor inside one text run at a
  time. For every document and every list of annotations the resolver returns the
  contributions of the annotations one after the other, in the order of the
  annotations. An annotation whose anchor is not empty and occurs within some text run
  of the document (the runs in document order, those of table cells among them)
  contributes exactly one range: it starts at the start index of the first run that
  holds the anchor plus the offset of the anchor's first occurrence in that run, it ends
  \<open>length anchor\<close> later, and the document substring at the range is the anchor. An
  annotation with no anchor, with an empty anchor, or whose anchor occurs within no
  single run contributes no range.
\<close>

theorem resolver_ranges:
  assumes doc: "get_document ed w doc_id = Inr doc"
    and cms: "get_comments ed w doc_id = Inr cms"
  shows "\<exists>rss. find_commented_ranges ed w doc_id = Inr (concat rss)
           \<and> length rss = length cms
           \<and> (\<forall>i < length cms.
                (\<forall>t. cm_anchor (cms ! i) = Some t \<and> t \<noteq> []
                      \<and> (\<exists>e \<in> set (text_elements (content_or doc [])). run_holds t e)
                  \<longrightarrow> (\<exists>pre e post c off.
                         text_elements (content_or doc []) = pre @ e # post
                         \<and> (\<forall>x \<in> set pre. \<not> run_holds t x)
                         \<and> run_content e = Some c
                         \<and> occurs_at t c off \<and> (\<forall>j<off. \<not> occurs_at t c j)
                         \<and> substring_at (content_or doc []) (run_start e + int off) t
                         \<and> rss ! i =
                             [\<lparr>start_index = run_start e + int off,
                               end_index = run_start e + int off + int (length t),
                               comment_id = cm_comment_id (cms ! i),
                               comment_content = cm_content (cms ! i),
                               anchor_text = t\<rparr>]))
                \<and> (cm_anchor (cms ! i) = None \<or> cm_anchor (cms ! i) = Some []
                     \<or> (\<forall>e \<in> set (text_elements (content_or doc [])).
                           \<not> run_holds (the (cm_anchor (cms ! i))) e)
                   \<longrightarrow> rss ! i = []))"
proof -
  let ?es = "content_or doc []"
  let ?rss = "map (\<lambda>A. resolve_comments ?es [A]) cms"
  have 1: "find_commented_ranges ed w doc_id = Inr (concat ?rss)"
    using resolve_comments_concat [of ?es cms]
    by (simp add: find_commented_ranges_def doc cms)
  have 2: "length ?rss = length cms" by simp
  have 3: "\<exists>pre e post c off.
             text_elements ?es = pre @ e # post
             \<and> (\<forall>x \<in> set pre. \<not> run_holds t x)
             \<and> run_content e = Some c
             \<and> occurs_at t c off \<and> (\<forall>j<off. \<not> occurs_at t c j)
             \<and> substring_at ?es (run_start e + int off) t
             \<and> ?rss ! i =
                 [\<lparr>start_index = run_start e + int off,
                   end_index = run_start e + int off + int (length t),
                   comment_id = cm_comment_id (cms ! i),
                   comment_content = cm_content (cms ! i),
                   anchor_text = t\<rparr>]"
    if "i < length cms" "cm_anchor (cms ! i) = Some t" "t \<noteq> []"
      "\<exists>e \<in> set (text_elements ?es). run_holds t e" for i t
    using resolve_one_found [OF that(2) that(3) that(4)] that(1) by simp
  have 4: "?rss ! i = []"
    if "i < length cms"
      "cm_anchor (cms ! i) = None \<or> cm_anchor (cms ! i) = Some []
       \<or> (\<forall>e \<in> set (text_elements ?es). \<not> run_holds (the (cm_anchor (cms ! i))) e)" for i
    using resolve_one_none [OF that(2)] that(1) by simp
  show ?thesis
    by (rule exI [of _ ?rss]) (use 1 2 3 4 in blast)
qed

theorem resolver_ranges_witness:
  "(\<exists>rss e c off.
      find_commented_ranges
         (serving_editor hello_doc [] [anchor_comment ''c1'' ''zzz'', anchor_comment ''c2'' ''Hello''])
         empty_store ''doc'' = Inr (concat rss)
      \<and> length rss = 2
      \<and> rss ! 0 = []
      \<and> run_content e = Some c
      \<and> occurs_at ''Hello'' c off
      \<and> substring_at (content_or hello_doc []) (run_start e + int off) ''Hello''
      \<and> rss ! 1 = [\<lparr>start_index = run_start e + int off,
                      end_index = run_start e + int off + int (length ''Hello''),
                      comment_id = ''c2'', comment_content = ''check'',
                      anchor_text = ''Hello''\<rparr>])
   \<and> find_commented_ranges
        (serving_editor hello_doc [] [anchor_comment ''c1'' ''zzz'', anchor_comment ''c2'' ''Hello''])
        empty_store ''doc''
      = Inr [\<lparr>start_index = 1, end_index = 6, comment_id = ''c2'', comment_content = ''check'',
               anchor_text = ''Hello''\<rparr>]
   \<and> substring_at (content_or hello_doc []) 1 ''Hello''"
proof -
  let ?cms = "[anchor_comment ''c1'' ''zzz'', anchor_comment ''c2'' ''Hello'']"
  let ?ed = "serving_editor hello_doc [] ?cms"
  let ?es = "content_or hello_doc []"
  have doc: "get_document ?ed empty_store ''doc'' = Inr hello_doc"
    and cms: "get_comments ?ed empty_store ''doc'' = Inr ?cms"
    by (simp_all add: serving_editor_def)
  have runs: "text_elements ?es =
      [\<lparr>pe_startIndex = Some 1, pe_textRun = Some \<lparr>tr_content = Some (''Hello'' @ [CHR 0x0A])\<rparr>\<rparr>]"
    by (simp add: hello_doc_def doc_of_def section_break_def text_paragraph_def content_or_def
        elements_of_def)
  have h0: "cm_anchor (?cms ! 0) = None \<or> cm_anchor (?cms ! 0) = Some []
        \<or> (\<forall>e \<in> set (text_elements ?es). \<not> run_holds (the (cm_anchor (?cms ! 0))) e)"
    by (simp add: runs anchor_comment_def run_holds_def run_content_def str_in_def startswith_def)
  have h1: "cm_anchor (?cms ! 1) = Some ''Hello'' \<and> ''Hello'' \<noteq> []
        \<and> (\<exists>e \<in> set (text_elements ?es). run_holds ''Hello'' e)"
    by (simp add: runs anchor_comment_def run_holds_def run_content_def str_in_def startswith_def)
  from resolver_ranges [OF doc cms] obtain rss where
    r: "find_commented_ranges ?ed empty_store ''doc'' = Inr (concat rss)"
    and l: "length rss = length ?cms"
    and a: "\<forall>i < length ?cms.
                (\<forall>t. cm_anchor (?cms ! i) = Some t \<and> t \<noteq> []
                      \<and> (\<exists>e \<in> set (text_elements ?es). run_holds t e)
                  \<longrightarrow> (\<exists>pre e post c off.
                         text_elements ?es = pre @ e # post
                         \<and> (\<forall>x \<in> set pre. \<not> run_holds t x)
                         \<and> run_content e = Some c
                         \<and> occurs_at t c off \<and> (\<forall>j<off. \<not> occurs_at t c j)
                         \<and> substring_at ?es (run_start e + int off) t
                         \<and> rss ! i =
                             [\<lparr>start_index = run_start e + int off,
                               end_index = run_start e + int off + int (length t),
                               comment_id = cm_comment_id (?cms ! i),
                               comment_content = cm_content (?cms ! i),
                               anchor_text = t\<rparr>]))
                \<and> (cm_anchor (?cms ! i) = None \<or> cm_anchor (?cms ! i) = Some []
                     \<or> (\<forall>e \<in> set (text_elements ?es).
                           \<not> run_holds (the (cm_anchor (?cms ! i))) e)
                   \<longrightarrow> rss ! i = [])"
    by blast
  have i0: "(0::nat) < length ?cms" and i1: "(1::nat) < length ?cms" by simp_all
  from a i0 h0 have z: "rss ! 0 = []" by blast
  from a i1 h1 obtain e c off where
    o: "run_content e = Some c" "occurs_at ''Hello'' c off"
      "substring_at ?es (run_start e + int off) ''Hello''"
      "rss ! 1 = [\<lparr>start_index = run_start e + int off,
                   end_index = run_start e + int off + int (length ''Hello''),
                   comment_id = cm_comment_id (?cms ! 1),
                   comment_content = cm_content (?cms ! 1),
                   anchor_text = ''Hello''\<rparr>]"
    by blast
  have ids: "cm_comment_id (?cms ! 1) = ''c2''" "cm_content (?cms ! 1) = ''check''"
    by (simp_all add: anchor_comment_def)
  have first: "\<exists>rss e c off.
      find_commented_ranges ?ed empty_store ''doc'' = Inr (concat rss)
      \<and> length rss = 2
      \<and> rss ! 0 = []
      \<and> run_content e = Some c
      \<and> occurs_at ''Hello'' c off
      \<and> substring_at ?es (run_start e + int off) ''Hello''
      \<and> rss ! 1 = [\<lparr>start_index = run_start e + int off,
                      end_index = run_start e + int off + int (length ''Hello''),
                      comment_id = ''c2'', comment_content = ''check'',
                      anchor_text = ''Hello''\<rparr>]"
    using r l z o unfolding ids by (intro exI [of _ rss] exI [of _ e] exI [of _ c] exI [of _ off]) simp
  have v: "find_commented_ranges ?ed empty_store ''doc''
      = Inr [\<lparr>start_index = 1, end_index = 6, comment_id = ''c2'', comment_content = ''check'',
               anchor_text = ''Hello''\<rparr>]"
    by (simp add: serving_editor_def empty_store_def doc_of_def section_break_def
        text_paragraph_def hello_doc_def anchor_comment_def find_commented_ranges_def
        content_or_def elements_of_def truthy_def str_in_def startswith_def Let_def)
  have s: "substring_at ?es 1 ''Hello''"
    by (simp add: substring_at_def text_at_def runs run_content_def run_start_def upt_rec)
  from first v s show ?thesis by blast
qed

theorem anchor_across_runs_counterexample:
  "str_in ''Hello world'' (document_text (content_or two_runs_doc []))
   \<and> find_commented_ranges
       (serving_editor two_runs_doc [] [anchor_comment ''c1'' ''Hello world''])
       empty_store ''doc'' = Inr []"
  by (simp add: serving_editor_def empty_store_def doc_of_def section_break_def
      text_paragraph_def two_runs_doc_def anchor_comment_def find_commented_ranges_def
      content_or_def elements_of_def truthy_def str_in_def startswith_def document_text_def
      run_content_def Let_def)

section \<open>The attribution-time search against the resolver\<close>

lemma str_in_append_left: "str_in t s \<Longrightarrow> str_in t (s @ r)"
proof -
  assume "str_in t s"
  then obtain p q where "s = p @ t @ q" by (auto simp: str_in_iff)
  then have "s @ r = p @ t @ (q @ r)" by simp
  then show ?thesis unfolding str_in_iff by blast
qed

lemma str_in_append_right: "str_in t s \<Longrightarrow> str_in t (r @ s)"
proof -
  assume "str_in t s"
  then obtain p q where "s = p @ t @ q" by (auto simp: str_in_iff)
  then have "r @ s = (r @ p) @ t @ q" by simp
  then show ?thesis unfolding str_in_iff by blast
qed

lemma str_find_from_bounds:
  assumes "str_find_from s t pos = Some idx"
  shows "pos \<le> idx \<and> idx + length t \<le> length s"
proof -
  from assms obtain i where i: "str_find (drop pos s) t = Some i" "idx = i + pos" "pos \<le> length s"
    by (auto simp: str_find_from_def split: if_splits option.splits)
  from str_find_Some [OF i(1)] have "i + length t \<le> length s - pos"
    by (simp add: occurs_at_def)
  with i show ?thesis by simp
qed

lemma str_find_from_0: "str_find_from s t 0 = str_find s t"
  by (simp add: str_find_from_def split: option.splits)

lemma find_occurrences_returns:
  assumes t: "t \<noteq> []"
  shows "\<exists>ms'. find_occurrences ops full t k si pos ms = Some (ms @ ms')
               \<and> (ms' \<noteq> [] \<longleftrightarrow> str_find_from (lower ops full) (lower ops t) pos \<noteq> None)"
proof (induction "Suc (length (lower ops full)) - pos" arbitrary: pos ms rule: less_induct)
  case less
  show ?case
  proof (cases "str_find_from (lower ops full) (lower ops t) pos")
    case None
    then show ?thesis by (subst find_occurrences.simps) simp
  next
    case (Some idx)
    from str_find_from_bounds [OF Some]
    have b: "pos \<le> idx" "idx \<le> length (lower ops full)" by simp_all
    have "0 < length t" using t by simp
    with b have dec: "Suc (length (lower ops full)) - (idx + length t)
                      < Suc (length (lower ops full)) - pos"
      by arith
    let ?m = "\<lparr>paragraph_index = k,
               doc_start = (case si of None \<Rightarrow> 1 | Some i \<Rightarrow> if i = 0 then 1 else i) + int idx,
               match_length = length t, excerpt = make_excerpt ops full t idx\<rparr>"
    from less [OF dec, of "ms @ [?m]"] obtain ms'' where
      r: "find_occurrences ops full t k si (idx + length t) (ms @ [?m])
            = Some ((ms @ [?m]) @ ms'')"
      by blast
    have "find_occurrences ops full t k si pos ms = Some (ms @ (?m # ms''))"
      by (subst find_occurrences.simps) (simp add: Some r)
    then show ?thesis using Some by blast
  qed
qed

lemma find_text_in_elements_returns:
  assumes t: "t \<noteq> []"
  shows "\<exists>ms'. find_text_in_elements ops es t k ms = Some (ms @ ms')
               \<and> (ms' \<noteq> [] \<longleftrightarrow> (\<exists>e \<in> set es. paragraph_matches ops t e))"
proof (induction es arbitrary: k ms)
  case Nil
  then show ?case by simp
next
  case (Cons e es)
  show ?case
  proof (cases "el_paragraph e")
    case None
    then have "\<not> paragraph_matches ops t e" by (simp add: paragraph_matches_def)
    with None Cons.IH [of k ms] show ?thesis by simp
  next
    case (Some p)
    show ?thesis
    proof (cases "text_parts (elements_of p) = []")
      case True
      then have nm: "\<not> paragraph_matches ops t e"
        using Some by (simp add: paragraph_matches_def)
      show ?thesis
      proof (cases "p_elements p = None \<and> p_namedStyleType p = None")
        case True
        with Some nm Cons.IH [of k ms] show ?thesis by simp
      next
        case False
        with Some nm True Cons.IH [of "k + 1" ms] show ?thesis by auto
      qed
    next
      case False
      then have ne: "\<not> (p_elements p = None \<and> p_namedStyleType p = None)"
        by (auto simp: elements_of_def)
      let ?full = "concat (text_parts (elements_of p))"
      from find_occurrences_returns [OF t, of ops ?full "k + 1"
          "first_start_index (elements_of p)" 0 ms]
      obtain m1 where
        m1: "find_occurrences ops ?full t (k + 1) (first_start_index (elements_of p)) 0 ms
               = Some (ms @ m1)"
        and m1_iff: "m1 \<noteq> [] \<longleftrightarrow> str_in (lower ops t) (lower ops ?full)"
        by (auto simp: str_find_from_0 str_in_def)
      from Cons.IH [of "k + 1" "ms @ m1"] obtain m2 where
        m2: "find_text_in_elements ops es t (k + 1) (ms @ m1) = Some ((ms @ m1) @ m2)"
        and m2_iff: "m2 \<noteq> [] \<longleftrightarrow> (\<exists>e \<in> set es. paragraph_matches ops t e)"
        by blast
      have "find_text_in_elements ops (e # es) t k ms = Some (ms @ (m1 @ m2))"
        using ne by (auto simp add: Some False m1 m2)
      moreover have "paragraph_matches ops t e \<longleftrightarrow> str_in (lower ops t) (lower ops ?full)"
        using False by (simp add: paragraph_matches_def Some)
      then have "m1 @ m2 \<noteq> [] \<longleftrightarrow> (\<exists>x \<in> set (e # es). paragraph_matches ops t x)"
        using m1_iff m2_iff by auto
      ultimately show ?thesis by blast
    qed
  qed
qed

lemma find_in_text_elements_in_parts:
  "find_in_text_elements xs t = Some r \<Longrightarrow> t \<noteq> [] \<Longrightarrow>
   text_parts xs \<noteq> [] \<and> str_in t (concat (text_parts xs))"
proof (induction xs)
  case Nil
  then show ?case by simp
next
  case (Cons e xs)
  show ?case
  proof (cases "pe_textRun e")
    case None
    with Cons show ?thesis by simp
  next
    case (Some tr)
    show ?thesis
    proof (cases "tr_content tr")
      case None
      have "str_find [] t = None" using Cons.prems(2) by simp
      with Cons Some None show ?thesis by simp
    next
      case c: (Some c)
      show ?thesis
      proof (cases "str_find c t")
        case None
        with Cons Some c have "str_in t (concat (text_parts xs))" by simp
        then show ?thesis using Some c by (simp add: str_in_append_right)
      next
        case f: (Some off)
        then have "str_in t c" by (simp add: str_in_def)
        then show ?thesis using Some c by (simp add: str_in_append_left)
      qed
    qed
  qed
qed

lemma find_text_range_top_level:
  "no_tables es \<Longrightarrow> find_text_range es t = Some r \<Longrightarrow> t \<noteq> [] \<Longrightarrow>
   keeps_occurrences ops t \<Longrightarrow> \<exists>e \<in> set es. paragraph_matches ops t e"
proof (induction es)
  case Nil
  then show ?case by simp
next
  case (Cons e es)
  obtain si ei para tbl where e: "e = Element si ei para tbl" by (cases e)
  from Cons.prems(1) have tbl: "tbl = None" and nt: "no_tables es"
    by (simp_all add: no_tables_def e)
  show ?case
  proof (cases "case para of None \<Rightarrow> None | Some p \<Rightarrow> find_in_text_elements (elements_of p) t")
    case None
    with Cons.prems(2) have "find_text_range es t = Some r" by (simp add: e tbl)
    from Cons.IH [OF nt this Cons.prems(3) Cons.prems(4)] show ?thesis by simp
  next
    case (Some r')
    then obtain p where p: "para = Some p" "find_in_text_elements (elements_of p) t = Some r'"
      by (auto split: option.splits)
    from find_in_text_elements_in_parts [OF p(2) Cons.prems(3)]
    have parts: "text_parts (elements_of p) \<noteq> []"
      and "str_in t (concat (text_parts (elements_of p)))"
      by simp_all
    then obtain a b where "concat (text_parts (elements_of p)) = a @ t @ b"
      by (auto simp: str_in_iff)
    with Cons.prems(4)
    have "str_in (lower ops t) (lower ops (concat (text_parts (elements_of p))))"
      by (simp add: keeps_occurrences_def)
    with parts have "paragraph_matches ops t e"
      by (simp add: paragraph_matches_def e p(1))
    then show ?thesis by simp
  qed
qed

lemma keeps_occurrences_map:
  assumes "lower ops = map f"
  shows "keeps_occurrences ops t"
proof -
  have "lower ops (p @ t @ q) = lower ops p @ lower ops t @ lower ops q" for p q
    by (simp add: assms)
  then show ?thesis unfolding keeps_occurrences_def str_in_iff by blast
qed

text \<open>
  C10, as the code has it. The attribution-time search lower-cases the search text and
  the concatenation of the text runs of each top-level paragraph and looks for the one
  in the other. For every document and every search text that is not empty it returns,
  and it has a match exactly when the lower-cased search text occurs in the lower-cased
  concatenated text of some top-level paragraph that has text runs: it finds
  occurrences that differ in letter case only and occurrences that span several runs
  of one paragraph, which the resolver's search, case-sensitive and within a single
  text run, does not find. It does not find strictly more: it does not look into table
  cells, which the resolver's search does, and lower-casing need not keep an
  occurrence. Whatever the resolver's search finds in a document whose blocks hold no
  table, the attribution-time search finds too when lower-casing keeps every
  occurrence of the search text, as every lower-casing does that works character by
  character.
\<close>

theorem attribution_search_matches:
  assumes t: "t \<noteq> []"
  shows "(\<exists>ms. find_text_in_document ops doc t = Some ms
               \<and> (ms \<noteq> [] \<longleftrightarrow> (\<exists>e \<in> set (content_or doc []). paragraph_matches ops t e)))
       \<and> (no_tables (content_or doc []) \<and> find_text_range (content_or doc []) t \<noteq> None
            \<and> keeps_occurrences ops t
            \<longrightarrow> (\<exists>ms. find_text_in_document ops doc t = Some ms \<and> ms \<noteq> []))"
proof (intro conjI impI)
  from find_text_in_elements_returns [OF t, of ops "content_or doc []" "- 1" "[]"]
  show a: "\<exists>ms. find_text_in_document ops doc t = Some ms
               \<and> (ms \<noteq> [] \<longleftrightarrow> (\<exists>e \<in> set (content_or doc []). paragraph_matches ops t e))"
    by (simp add: find_text_in_document_def)
  assume "no_tables (content_or doc []) \<and> find_text_range (content_or doc []) t \<noteq> None
            \<and> keeps_occurrences ops t"
  then obtain r where "no_tables (content_or doc [])"
    "find_text_range (content_or doc []) t = Some r" "keeps_occurrences ops t"
    by auto
  from find_text_range_top_level [OF this(1) this(2) t this(3)] a
  show "\<exists>ms. find_text_in_document ops doc t = Some ms \<and> ms \<noteq> []" by blast
qed

theorem attribution_search_matches_witness:
  "find_text_range (content_or hello_doc []) ''hello'' = None
   \<and> (\<exists>ms. find_text_in_document latin1 hello_doc ''hello'' = Some ms \<and> ms \<noteq> [])
   \<and> find_text_range (content_or ete_doc []) [CHR 0xC9, CHR ''T'', CHR 0xC9] = None
   \<and> (\<exists>ms. find_text_in_document latin1 ete_doc [CHR 0xC9, CHR ''T'', CHR 0xC9] = Some ms
          \<and> ms \<noteq> [])
   \<and> find_text_range (content_or two_runs_doc []) ''Hello world'' = None
   \<and> (\<exists>ms. find_text_in_document latin1 two_runs_doc ''Hello world'' = Some ms \<and> ms \<noteq> [])
   \<and> find_text_range (content_or hello_doc []) ''Hello'' = Some (1, 6)
   \<and> (\<exists>ms. find_text_in_document latin1 hello_doc ''Hello'' = Some ms \<and> ms \<noteq> [])"
proof -
  have 1: "\<exists>e \<in> set (content_or hello_doc []). paragraph_matches latin1 ''hello'' e"
    by (simp add: doc_of_def section_break_def text_paragraph_def hello_doc_def content_or_def
        elements_of_def paragraph_matches_def latin1_def latin1_lower_char_def
        latin1_capitals_def latin1_smalls_def str_in_def startswith_def)
  have 2: "\<exists>e \<in> set (content_or two_runs_doc []). paragraph_matches latin1 ''Hello world'' e"
    by (simp add: doc_of_def section_break_def text_paragraph_def two_runs_doc_def
        content_or_def elements_of_def paragraph_matches_def latin1_def latin1_lower_char_def
        latin1_capitals_def latin1_smalls_def str_in_def startswith_def)
  have 3: "no_tables (content_or hello_doc [])
           \<and> find_text_range (content_or hello_doc []) ''Hello'' \<noteq> None
           \<and> keeps_occurrences latin1 ''Hello''"
    using keeps_occurrences_map [of latin1 latin1_lower_char "''Hello''"]
    by (simp add: doc_of_def section_break_def text_paragraph_def hello_doc_def content_or_def
        elements_of_def no_tables_def latin1_def str_in_def startswith_def Let_def)
  have 4: "\<exists>e \<in> set (content_or ete_doc []).
             paragraph_matches latin1 [CHR 0xC9, CHR ''T'', CHR 0xC9] e"
    by (simp add: doc_of_def section_break_def text_paragraph_def ete_doc_def content_or_def
        elements_of_def paragraph_matches_def latin1_def latin1_lower_char_def
        latin1_capitals_def latin1_smalls_def str_in_def startswith_def)
  have r1: "find_text_range (content_or hello_doc []) ''hello'' = None"
    by (simp add: doc_of_def section_break_def text_paragraph_def hello_doc_def content_or_def
        elements_of_def startswith_def Let_def)
  have r2: "find_text_range (content_or two_runs_doc []) ''Hello world'' = None"
    by (simp add: doc_of_def section_break_def text_paragraph_def two_runs_doc_def
        content_or_def elements_of_def startswith_def Let_def)
  have r3: "find_text_range (content_or hello_doc []) ''Hello'' = Some (1, 6)"
    by (simp add: doc_of_def section_break_def text_paragraph_def hello_doc_def content_or_def
        elements_of_def startswith_def Let_def)
  have r4: "find_text_range (content_or ete_doc []) [CHR 0xC9, CHR ''T'', CHR 0xC9] = None"
    by (simp add: doc_of_def section_break_def text_paragraph_def ete_doc_def content_or_def
        elements_of_def startswith_def Let_def)
  from attribution_search_matches [of "''hello''" latin1 hello_doc]
    attribution_search_matches [of "''Hello world''" latin1 two_runs_doc]
    attribution_search_matches [of "''Hello''" latin1 hello_doc]
    attribution_search_matches [of "[CHR 0xC9, CHR ''T'', CHR 0xC9]" latin1 ete_doc]
    1 2 3 4 r1 r2 r3 r4
  show ?thesis by auto
qed

theorem table_cell_text_counterexample:
  "find_text_range (content_or table_doc []) ''abc'' = Some (4, 7)
   \<and> find_text_in_document latin1 table_doc ''abc'' = Some []"
  by (simp add: doc_of_def section_break_def text_paragraph_def table_doc_def content_or_def
      elements_of_def startswith_def find_text_in_document_def Let_def)

section \<open>The planner\<close>

lemma section_end_classification:
  assumes secs: "analyze_document ed w doc_id = Inr sections"
    and crs: "find_commented_ranges ed w doc_id = Inr ranges"
    and name: "name \<noteq> []"
    and bounds: "find_section_boundaries ops sections name = Some (section_start, section_end)"
  shows "\<exists>ip. calculate_insertion_point ops ed w doc_id (Some name) ''safe'' = Inr ip
           \<and> index ip = section_end - 1
           \<and> (safe ip \<longleftrightarrow> \<not> (\<exists>cr \<in> set ranges. contains cr (section_end - 1)))
           \<and> affected_comments ip
               = map comment_id (filter (\<lambda>cr. contains cr (section_end - 1)) ranges)"
  using name
  by (simp add: calculate_insertion_point_def secs crs bounds truthy_def Let_def
      filter_empty_conv)

text \<open>
  C2, at an input where the code leaves the claim. The document is the one paragraph
  \<open>Hello\<close> and a comment is anchored to \<open>Hello\<close>, so the resolver gives the range from
  1 to 6. With no section hint the planner targets offset 6, which the range contains
  under its inclusive bounds, and still answers \<open>safe = True\<close> with no affected
  comment: the two returns at the end of the document never look at the ranges.
\<close>

theorem document_end_marked_safe_inside_comment:
  "find_commented_ranges (serving_editor hello_doc [] [hello_comment]) empty_store ''doc''
     = Inr [\<lparr>start_index = 1, end_index = 6, comment_id = ''c1'', comment_content = ''check'',
              anchor_text = ''Hello''\<rparr>]
   \<and> contains \<lparr>start_index = 1, end_index = 6, comment_id = ''c1'', comment_content = ''check'',
              anchor_text = ''Hello''\<rparr> 6
   \<and> calculate_insertion_point latin1 (serving_editor hello_doc [] [hello_comment]) empty_store ''doc''
       None ''safe''
     = Inr \<lparr>index = 6, section_name = None, safe = True, affected_comments = [],
            strategy = ''new_section'', reason = ''Inserting at document end''\<rparr>"
  by (simp add: serving_editor_def empty_store_def doc_of_def section_break_def text_paragraph_def hello_doc_def hello_comment_def calculate_insertion_point_def insert_at_document_end_def document_end_def
      find_commented_ranges_def content_or_def elements_of_def truthy_def contains_def
      str_in_def startswith_def latin1_def latin1_lower_char_def latin1_capitals_def latin1_smalls_def Let_def)

text \<open>
  C5, at inputs where the code leaves the claim. For a document whose content is the
  empty list the planner raises \<open>IndexError\<close>, and for a document without a body it
  returns offset 0, not 1. The offset is 1 for the empty document as the store serves
  it, a section break and one empty paragraph.
\<close>

theorem zero_blocks_offset_not_one:
  "calculate_insertion_point latin1 (serving_editor (doc_of []) [] []) empty_store ''doc'' None ''safe''
     = Inl (IndexError ''list index out of range'')
   \<and> calculate_insertion_point latin1 (serving_editor \<lparr>doc_body = None\<rparr> [] []) empty_store ''doc''
       None ''safe''
     = Inr \<lparr>index = 0, section_name = None, safe = True, affected_comments = [],
            strategy = ''new_section'', reason = ''Inserting at document end''\<rparr>
   \<and> calculate_insertion_point latin1
       (serving_editor (doc_of [section_break, text_paragraph 1 [[CHR 0x0A]]]) [] [])
       empty_store ''doc'' None ''safe''
     = Inr \<lparr>index = 1, section_name = None, safe = True, affected_comments = [],
            strategy = ''new_section'', reason = ''Inserting at document end''\<rparr>"
  by (simp add: serving_editor_def empty_store_def doc_of_def section_break_def text_paragraph_def calculate_insertion_point_def insert_at_document_end_def document_end_def
      find_commented_ranges_def content_or_def elements_of_def truthy_def contains_def
      str_in_def startswith_def latin1_def latin1_lower_char_def latin1_capitals_def latin1_smalls_def Let_def)

section \<open>The merge orchestrator\<close>

lemma notes_plan:
  "calculate_insertion_point latin1 (serving_editor notes_doc notes_sections [hello_comment]) empty_store
     ''doc'' (Some ''notes'') ''safe''
   = Inr \<lparr>index = 12, section_name = Some ''notes'', safe = False, affected_comments = [''c1''],
          strategy = ''after'',
          reason = ''End of section '' @ [CHR 0x22] @ ''notes'' @ [CHR 0x22]\<rparr>"
  by (simp add: serving_editor_def empty_store_def doc_of_def section_break_def text_paragraph_def notes_doc_def notes_sections_def hello_comment_def calculate_insertion_point_def insert_at_document_end_def document_end_def
      find_commented_ranges_def content_or_def elements_of_def truthy_def contains_def
      str_in_def startswith_def latin1_def latin1_lower_char_def latin1_capitals_def latin1_smalls_def Let_def)

text \<open>
  C6. When the planned insertion point has affected comments and the comment strategy
  of the options is \<open>ask\<close>, \<open>merge_content\<close> returns the decision payload (no success,
  the flag that a decision is required, the affected comment ids, the three
  alternative strategies) and the state of the store is the one it was called in: no
  batch was submitted and no comment created.
\<close>

theorem ask_returns_decision_without_mutation:
  assumes ip: "calculate_insertion_point ops ed w (extract_doc_id ed doc_url)
                 (if truthy section then section else target_section opts)
                 (if preserve_comments opts then ''safe'' else ''simple'') = Inr ip"
    and affected: "affected_comments ip \<noteq> []"
    and ask: "comment_strategy opts = ''ask''"
  shows "merge_content ops ed w doc_url content section (Some opts) =
           Some (Inr \<lparr>success = False,
                 message = ''Insertion would affect ''
                   @ str_of_nat (length (affected_comments ip)) @ '' comment(s)'',
                 requires_user_decision = Some True,
                 res_affected_comments = Some (affected_comments ip),
                 res_insertion_point = Some ip,
                 res_options = Some [''insert_before'', ''insert_after'',
                   ''update_with_preservation''],
                 comments_preserved = None, new_comment_id = None, res_error = None\<rparr>, w)"
  using affected ask by (simp add: merge_content_def merge_content_try_def Let_def ip)

theorem ask_returns_decision_without_mutation_witness:
  "merge_content latin1 (serving_editor notes_doc notes_sections [hello_comment]) empty_store ''doc''
     ''new text'' (Some ''notes'') (Some (default_merge_options\<lparr>comment_strategy := ''ask''\<rparr>))
   = Some (Inr \<lparr>success = False, message = ''Insertion would affect 1 comment(s)'',
           requires_user_decision = Some True, res_affected_comments = Some [''c1''],
           res_insertion_point =
             Some \<lparr>index = 12, section_name = Some ''notes'', safe = False,
                   affected_comments = [''c1''], strategy = ''after'',
                   reason = ''End of section '' @ [CHR 0x22] @ ''notes'' @ [CHR 0x22]\<rparr>,
           res_options = Some [''insert_before'', ''insert_after'', ''update_with_preservation''],
           comments_preserved = None, new_comment_id = None, res_error = None\<rparr>,
      empty_store)"
proof -
  let ?ed = "serving_editor notes_doc notes_sections [hello_comment]"
  let ?opts = "default_merge_options\<lparr>comment_strategy := ''ask''\<rparr>"
  have ids: "extract_doc_id ?ed ''doc'' = ''doc''" by (simp add: serving_editor_def)
  have hint: "(if truthy (Some ''notes'') then Some ''notes'' else target_section ?opts)
                = Some ''notes''"
    by (simp add: truthy_def)
  have strat: "(if preserve_comments ?opts then ''safe'' else ''simple'') = ''safe''"
    by (simp add: default_merge_options_def)
  have ip: "calculate_insertion_point latin1 ?ed empty_store (extract_doc_id ?ed ''doc'')
                 (if truthy (Some ''notes'') then Some ''notes'' else target_section ?opts)
                 (if preserve_comments ?opts then ''safe'' else ''simple'')
            = Inr \<lparr>index = 12, section_name = Some ''notes'', safe = False,
                   affected_comments = [''c1''], strategy = ''after'',
                   reason = ''End of section '' @ [CHR 0x22] @ ''notes'' @ [CHR 0x22]\<rparr>"
    by (simp only: ids hint strat notes_plan)
  show ?thesis
    using ask_returns_decision_without_mutation [OF ip, of "''new text''"]
    by (simp add: digit_char_def)
qed

lemma create_comment_with_context_returns:
  assumes t: "search_text \<noteq> []"
  shows "create_comment_with_context ops ed w doc_id content search_text occurrence \<noteq> None"
proof (cases "docs_get ed w doc_id")
  case (Inl e)
  then show ?thesis by (simp add: create_comment_with_context_def)
next
  case (Inr doc)
  from find_text_in_elements_returns [OF t, of ops "content_or doc []" "- 1" "[]"]
  obtain ms where ms: "find_text_in_document ops doc search_text = Some ms"
    by (auto simp: find_text_in_document_def)
  show ?thesis by (simp add: create_comment_with_context_def Inr ms)
qed

lemma add_source_comment_phase_returns:
  assumes "strip ops formatted \<noteq> []"
  shows "add_source_comment_phase ops ed w doc_id formatted description \<noteq> None"
proof -
  let ?t = "take (min 50 (length (strip ops formatted))) (strip ops formatted)"
  let ?c = "comment_marker @ '' Added from '' @ description"
  have "?t \<noteq> []" using assms by simp
  from create_comment_with_context_returns [OF this, of ops ed w doc_id ?c 0]
  obtain r w' where r: "create_comment_with_context ops ed w doc_id ?c ?t 0 = Some (r, w')"
    by (cases "create_comment_with_context ops ed w doc_id ?c ?t 0") auto
  show ?thesis
  proof (cases r)
    case (Inl e)
    show ?thesis unfolding add_source_comment_phase_def Let_def r Inl by simp
  next
    case (Inr cid)
    show ?thesis
    proof (cases cid)
      case None
      obtain x w'' where "create_comment ed w' doc_id ?c = (x, w'')"
        by (cases "create_comment ed w' doc_id ?c")
      then show ?thesis
        unfolding add_source_comment_phase_def Let_def r Inr None by (cases x) simp_all
    next
      case (Some c)
      show ?thesis unfolding add_source_comment_phase_def Let_def r Inr Some by simp
    qed
  qed
qed

lemma add_source_comment_phase_raised:
  assumes "create_comment_with_context ops ed w doc_id
             (comment_marker @ '' Added from '' @ description)
             (take (min 50 (length (strip ops formatted))) (strip ops formatted)) 0
           = Some (Inl e, w')"
  shows "add_source_comment_phase ops ed w doc_id formatted description = Some (None, w')"
  unfolding add_source_comment_phase_def Let_def assms by simp

lemma add_source_comment_phase_fallback_raised:
  assumes "create_comment_with_context ops ed w doc_id
             (comment_marker @ '' Added from '' @ description)
             (take (min 50 (length (strip ops formatted))) (strip ops formatted)) 0
           = Some (Inr None, w')"
    and "create_comment ed w' doc_id (comment_marker @ '' Added from '' @ description)
           = (Inl e, w'')"
  shows "add_source_comment_phase ops ed w doc_id formatted description = Some (None, w'')"
  using assms by (simp add: add_source_comment_phase_def Let_def)

lemma merge_content_try_inserted:
  assumes ip: "calculate_insertion_point ops ed w (extract_doc_id ed doc_url)
                 (if truthy section then section else target_section opts)
                 (if preserve_comments opts then ''safe'' else ''simple'') = Inr ip"
    and ask: "\<not> (affected_comments ip \<noteq> [] \<and> comment_strategy opts = ''ask'')"
    and batch: "batchUpdate ed w (extract_doc_id ed doc_url)
                  (simple_insert_requests (index ip) (format_content_for_insertion content)
                     (extract_tab_id ed doc_url) (add_inline_attribution opts)
                     (source_description opts)) = (Inr u, w1)"
  shows "merge_content_try ops ed w doc_url content section opts =
           (case (if add_source_comment opts \<and> truthy (source_description opts)
                  then add_source_comment_phase ops ed w1 (extract_doc_id ed doc_url)
                         (format_content_for_insertion content) (the (source_description opts))
                  else Some (None, w1)) of
              None \<Rightarrow> None
            | Some (cid, w2) \<Rightarrow>
                Some (Inr \<lparr>success = True,
                      message = ''Content inserted successfully. '' @ reason ip,
                      requires_user_decision = None, res_affected_comments = None,
                      res_insertion_point = Some ip, res_options = None,
                      comments_preserved = Some (length (affected_comments ip)),
                      new_comment_id = Some cid, res_error = None\<rparr>, w2))"
proof -
  have ins: "insert_content ed w (extract_doc_id ed doc_url) (index ip)
      (format_content_for_insertion content) (extract_tab_id ed doc_url) None
      (add_inline_attribution opts) (source_description opts) = (True, w1)"
    by (simp add: insert_content_def simple_insert_def batch)
  have a: "(affected_comments ip \<noteq> [] \<and> comment_strategy opts = ''ask'') = False"
    using ask by simp
  show ?thesis
    by (simp only: merge_content_try_def Let_def ip ins a sum.case if_False prod.case bool.case)
qed

lemma merge_content_try_refused:
  assumes ip: "calculate_insertion_point ops ed w (extract_doc_id ed doc_url)
                 (if truthy section then section else target_section opts)
                 (if preserve_comments opts then ''safe'' else ''simple'') = Inr ip"
    and ask: "\<not> (affected_comments ip \<noteq> [] \<and> comment_strategy opts = ''ask'')"
    and batch: "batchUpdate ed w (extract_doc_id ed doc_url)
                  (simple_insert_requests (index ip) (format_content_for_insertion content)
                     (extract_tab_id ed doc_url) (add_inline_attribution opts)
                     (source_description opts)) = (Inl e, w1)"
  shows "merge_content_try ops ed w doc_url content section opts =
           Some (Inr \<lparr>success = False, message = ''Failed to insert content'',
                 requires_user_decision = None, res_affected_comments = None,
                 res_insertion_point = Some ip, res_options = None,
                 comments_preserved = None, new_comment_id = None, res_error = None\<rparr>, w1)"
proof -
  have ins: "insert_content ed w (extract_doc_id ed doc_url) (index ip)
      (format_content_for_insertion content) (extract_tab_id ed doc_url) None
      (add_inline_attribution opts) (source_description opts) = (False, w1)"
    by (simp add: insert_content_def simple_insert_def batch)
  show ?thesis
    using ask by (simp add: merge_content_try_def Let_def ip ins)
qed

lemma merge_content_try_returns:
  assumes s: "strip ops (format_content_for_insertion content) \<noteq> []"
  shows "merge_content_try ops ed w doc_url content section opts \<noteq> None"
proof (cases "calculate_insertion_point ops ed w (extract_doc_id ed doc_url)
                (if truthy section then section else target_section opts)
                (if preserve_comments opts then ''safe'' else ''simple'')")
  case (Inl e)
  then show ?thesis by (simp add: merge_content_try_def Let_def)
next
  case (Inr ip)
  show ?thesis
  proof (cases "affected_comments ip \<noteq> [] \<and> comment_strategy opts = ''ask''")
    case True
    then show ?thesis by (simp add: merge_content_try_def Let_def Inr)
  next
    case False
    obtain b w1 where batch: "batchUpdate ed w (extract_doc_id ed doc_url)
        (simple_insert_requests (index ip) (format_content_for_insertion content)
           (extract_tab_id ed doc_url) (add_inline_attribution opts)
           (source_description opts)) = (b, w1)"
      by (cases "batchUpdate ed w (extract_doc_id ed doc_url)
        (simple_insert_requests (index ip) (format_content_for_insertion content)
           (extract_tab_id ed doc_url) (add_inline_attribution opts)
           (source_description opts))")
    show ?thesis
    proof (cases b)
      case (Inl e)
      from merge_content_try_refused [OF Inr False batch [unfolded Inl]]
      show ?thesis by simp
    next
      case r: (Inr u)
      show ?thesis
      proof (cases "add_source_comment opts \<and> truthy (source_description opts)")
        case no: False
        then show ?thesis
          by (simp only: merge_content_try_inserted [OF Inr False batch [unfolded r]] if_False
              option.case prod.case) simp
      next
        case yes: True
        from add_source_comment_phase_returns [OF s, of ed w1 "extract_doc_id ed doc_url"
            "the (source_description opts)"]
        obtain cid w2 where "add_source_comment_phase ops ed w1 (extract_doc_id ed doc_url)
            (format_content_for_insertion content) (the (source_description opts)) = Some (cid, w2)"
          by (cases "add_source_comment_phase ops ed w1 (extract_doc_id ed doc_url)
            (format_content_for_insertion content) (the (source_description opts))") auto
        then show ?thesis using yes
          by (simp only: merge_content_try_inserted [OF Inr False batch [unfolded r]] if_True
              option.case prod.case) simp
      qed
    qed
  qed
qed

lemma str_find_empty: "str_find s [] = Some 0"
  by (cases s) (simp_all add: startswith_def)

lemma find_occurrences_empty_search:
  assumes a: "find_occurrences ops full t k si pos ms = Some r"
  shows "\<not> (t = [] \<and> lower ops [] = [] \<and> pos \<le> length (lower ops full))"
proof (rule find_occurrences.raw_induct
    [OF _ a, where P = "\<lambda>ops full t k si pos ms r.
        \<not> (t = [] \<and> lower ops [] = [] \<and> pos \<le> length (lower ops full))"])
  fix f :: "text_ops \<Rightarrow> string \<Rightarrow> string \<Rightarrow> int \<Rightarrow> int option \<Rightarrow> nat \<Rightarrow> text_match list
              \<Rightarrow> text_match list option"
  fix ops full t k si pos ms r
  assume IH: "\<And>ops full t k si pos ms r. f ops full t k si pos ms = Some r
                 \<Longrightarrow> \<not> (t = [] \<and> lower ops [] = [] \<and> pos \<le> length (lower ops full))"
  assume body: "(case str_find_from (lower ops full) (lower ops t) pos of
      None \<Rightarrow> Some ms
      | Some idx \<Rightarrow>
          f ops full t k si (idx + length t)
           (ms @
            [\<lparr>paragraph_index = k,
                doc_start = (case si of None \<Rightarrow> 1 | Some i \<Rightarrow> if i = 0 then 1 else i) + int idx,
                match_length = length t,
                excerpt = make_excerpt ops full t idx\<rparr>])) = Some r"
  show "\<not> (t = [] \<and> lower ops [] = [] \<and> pos \<le> length (lower ops full))"
  proof
    assume e: "t = [] \<and> lower ops [] = [] \<and> pos \<le> length (lower ops full)"
    then have "str_find_from (lower ops full) (lower ops t) pos = Some pos"
      by (simp add: str_find_from_def str_find_empty)
    with body e obtain m where "f ops full [] k si pos (ms @ [m]) = Some r"
      by simp
    from IH [OF this] e show False by simp
  qed
qed

lemma empty_search_never_returns:
  "find_text_in_document latin1 hello_doc [] = None"
proof -
  have "find_occurrences latin1 (''Hello'' @ [CHR 0x0A]) [] 0 (Some 1) 0 [] = None"
    using find_occurrences_empty_search
      [of latin1 "''Hello'' @ [CHR 0x0A]" "[]" 0 "Some 1" 0 "[]"]
    by (cases "find_occurrences latin1 (''Hello'' @ [CHR 0x0A]) [] 0 (Some 1) 0 []")
      (auto simp: latin1_def)
  then show ?thesis
    by (simp add: find_text_in_document_def hello_doc_def doc_of_def section_break_def
        text_paragraph_def content_or_def elements_of_def)
qed

lemma whitespace_content_merge_never_returns:
  "merge_content latin1 (serving_editor hello_doc [] []) empty_store ''doc'' [CHR 0xA0] None
     (Some (default_merge_options\<lparr>source_description := Some ''standup''\<rparr>)) = None"
proof -
  have s: "strip latin1 (format_content_for_insertion [CHR 0xA0]) = []"
    by (simp add: format_content_for_insertion_def startswith_def endswith_def strip_def
        latin1_def latin1_isspace_def)
  have ip: "calculate_insertion_point latin1 (serving_editor hello_doc [] []) empty_store ''doc''
              None ''safe''
            = Inr \<lparr>index = 6, section_name = None, safe = True, affected_comments = [],
                   strategy = ''new_section'', reason = ''Inserting at document end''\<rparr>"
    by (simp add: serving_editor_def empty_store_def doc_of_def section_break_def
        text_paragraph_def hello_doc_def calculate_insertion_point_def
        insert_at_document_end_def document_end_def find_commented_ranges_def content_or_def
        truthy_def Let_def)
  have cc: "create_comment_with_context latin1 (serving_editor hello_doc [] []) w ''doc'' c [] 0
              = None"
    for w c
    by (simp add: create_comment_with_context_def serving_editor_def empty_search_never_returns)
  have ph: "add_source_comment_phase latin1 (serving_editor hello_doc [] []) w ''doc''
              (format_content_for_insertion [CHR 0xA0]) d = None" for w d
    unfolding add_source_comment_phase_def Let_def s by (simp add: cc)
  have ids: "extract_doc_id (serving_editor hello_doc [] []) ''doc'' = ''doc''"
    "extract_tab_id (serving_editor hello_doc [] []) ''doc'' = None"
    by (simp_all add: serving_editor_def)
  have ins: "insert_content (serving_editor hello_doc [] []) empty_store ''doc'' 6
               (format_content_for_insertion [CHR 0xA0]) None None True (Some ''standup'')
             = (True, empty_store\<lparr>st_batches :=
                  [simple_insert_requests 6 (format_content_for_insertion [CHR 0xA0]) None True
                     (Some ''standup'')]\<rparr>)"
    by (simp add: insert_content_def simple_insert_def serving_editor_def empty_store_def)
  have "merge_content_try latin1 (serving_editor hello_doc [] []) empty_store ''doc'' [CHR 0xA0]
          None (default_merge_options\<lparr>source_description := Some ''standup''\<rparr>) = None"
    unfolding merge_content_try_def Let_def ids
    by (simp add: default_merge_options_def truthy_def ip ins ph)
  then show ?thesis by (simp add: merge_content_def)
qed

lemma no_comments_context:
  assumes t: "search_text \<noteq> []"
  shows "create_comment_with_context ops (no_comments_editor doc) w doc_id content search_text
           occurrence = Some (Inr None, w)"
proof -
  from find_text_in_elements_returns [OF t, of ops "content_or doc []" "- 1" "[]"]
  obtain ms where ms: "find_text_in_document ops doc search_text = Some ms"
    by (auto simp: find_text_in_document_def)
  show ?thesis
    by (simp add: create_comment_with_context_def no_comments_editor_def ms
        except_http_error_def)
qed

text \<open>
  C7, as the code has it. No exception leaves \<open>merge_content\<close>, whichever it is: the
  handler of the outer \<open>try\<close> catches every \<open>Exception\<close>, those for a document that
  is not found or may not be read among them. When the formatted content has a
  character that is not white space, \<open>merge_content\<close> returns, and what it returns is
  a result. Which result, by the place of the failure:

    \<^item> an exception raised while the insertion point is planned comes back as a result
      without success, with the message \<open>Error:\<close> and the exception's text, the same
      text as error detail, and the store as it was;

    \<^item> a batch the store refuses comes back as a result without success and with the
      message \<open>Failed to insert content\<close>;

    \<^item> once the store has accepted the batch, every result is one with
      \<open>success = True\<close>, whatever happens while the source comment is created;

    \<^item> an exception raised by \<open>create_comment_with_context\<close>, or by \<open>create_comment\<close>
      after \<open>create_comment_with_context\<close> has answered \<open>None\<close>, is swallowed by the
      inner \<open>try\<close>: the result has \<open>success = True\<close> and \<open>new_comment_id\<close> is \<open>None\<close>.
\<close>

theorem merge_never_raises:
  "merge_content ops ed w doc_url content section options \<noteq> Some (Inl x, wx)
   \<and> (strip ops (format_content_for_insertion content) \<noteq> []
       \<longrightarrow> (\<exists>r w'. merge_content ops ed w doc_url content section options = Some (Inr r, w')))
   \<and> (calculate_insertion_point ops ed w (extract_doc_id ed doc_url)
         (if truthy section then section else target_section opts)
         (if preserve_comments opts then ''safe'' else ''simple'') = Inl e
       \<longrightarrow> merge_content ops ed w doc_url content section (Some opts) =
             Some (Inr \<lparr>success = False, message = ''Error: '' @ str_of_error e,
                   requires_user_decision = None, res_affected_comments = None,
                   res_insertion_point = None, res_options = None, comments_preserved = None,
                   new_comment_id = None, res_error = Some (str_of_error e)\<rparr>, w))
   \<and> (calculate_insertion_point ops ed w (extract_doc_id ed doc_url)
         (if truthy section then section else target_section opts)
         (if preserve_comments opts then ''safe'' else ''simple'') = Inr ip
       \<and> \<not> (affected_comments ip \<noteq> [] \<and> comment_strategy opts = ''ask'')
       \<and> batchUpdate ed w (extract_doc_id ed doc_url)
           (simple_insert_requests (index ip) (format_content_for_insertion content)
              (extract_tab_id ed doc_url) (add_inline_attribution opts)
              (source_description opts)) = (Inl e', w')
       \<longrightarrow> merge_content ops ed w doc_url content section (Some opts) =
             Some (Inr \<lparr>success = False, message = ''Failed to insert content'',
                   requires_user_decision = None, res_affected_comments = None,
                   res_insertion_point = Some ip, res_options = None,
                   comments_preserved = None, new_comment_id = None, res_error = None\<rparr>, w'))
   \<and> (calculate_insertion_point ops ed w (extract_doc_id ed doc_url)
         (if truthy section then section else target_section opts)
         (if preserve_comments opts then ''safe'' else ''simple'') = Inr ip
       \<and> \<not> (affected_comments ip \<noteq> [] \<and> comment_strategy opts = ''ask'')
       \<and> batchUpdate ed w (extract_doc_id ed doc_url)
           (simple_insert_requests (index ip) (format_content_for_insertion content)
              (extract_tab_id ed doc_url) (add_inline_attribution opts)
              (source_description opts)) = (Inr u, w1)
       \<longrightarrow> (\<forall>y w2. merge_content ops ed w doc_url content section (Some opts) = Some (y, w2)
             \<longrightarrow> (\<exists>cid. y = Inr \<lparr>success = True,
                     message = ''Content inserted successfully. '' @ reason ip,
                     requires_user_decision = None, res_affected_comments = None,
                     res_insertion_point = Some ip, res_options = None,
                     comments_preserved = Some (length (affected_comments ip)),
                     new_comment_id = Some cid, res_error = None\<rparr>))
         \<and> (add_source_comment opts \<and> truthy (source_description opts)
              \<and> (create_comment_with_context ops ed w1 (extract_doc_id ed doc_url)
                    (comment_marker @ '' Added from '' @ the (source_description opts))
                    (take (min 50 (length (strip ops (format_content_for_insertion content))))
                       (strip ops (format_content_for_insertion content))) 0
                   = Some (Inl e2, w3)
                  \<or> (\<exists>w2. create_comment_with_context ops ed w1 (extract_doc_id ed doc_url)
                        (comment_marker @ '' Added from '' @ the (source_description opts))
                        (take (min 50 (length (strip ops (format_content_for_insertion content))))
                           (strip ops (format_content_for_insertion content))) 0
                       = Some (Inr None, w2)
                      \<and> create_comment ed w2 (extract_doc_id ed doc_url)
                          (comment_marker @ '' Added from '' @ the (source_description opts))
                        = (Inl e2, w3)))
             \<longrightarrow> merge_content ops ed w doc_url content section (Some opts) =
                   Some (Inr \<lparr>success = True,
                         message = ''Content inserted successfully. '' @ reason ip,
                         requires_user_decision = None, res_affected_comments = None,
                         res_insertion_point = Some ip, res_options = None,
                         comments_preserved = Some (length (affected_comments ip)),
                         new_comment_id = Some None, res_error = None\<rparr>, w3)))"
proof (intro conjI impI allI)
  let ?opts = "case options of None \<Rightarrow> default_merge_options | Some opts \<Rightarrow> opts"
  show "merge_content ops ed w doc_url content section options \<noteq> Some (Inl x, wx)"
  proof (cases "merge_content_try ops ed w doc_url content section ?opts")
    case None
    then show ?thesis by (simp add: merge_content_def)
  next
    case (Some p)
    obtain y w'' where p: "p = (y, w'')" by (cases p)
    show ?thesis by (cases y) (simp_all add: merge_content_def Some p)
  qed
next
  let ?opts = "case options of None \<Rightarrow> default_merge_options | Some opts \<Rightarrow> opts"
  assume "strip ops (format_content_for_insertion content) \<noteq> []"
  from merge_content_try_returns [OF this, of ed w doc_url "section" ?opts]
  obtain y w'' where t: "merge_content_try ops ed w doc_url content section ?opts = Some (y, w'')"
    by (cases "merge_content_try ops ed w doc_url content section ?opts") auto
  show "\<exists>r w'. merge_content ops ed w doc_url content section options = Some (Inr r, w')"
    by (cases y) (simp_all add: merge_content_def t)
next
  assume "calculate_insertion_point ops ed w (extract_doc_id ed doc_url)
         (if truthy section then section else target_section opts)
         (if preserve_comments opts then ''safe'' else ''simple'') = Inl e"
  then have "merge_content_try ops ed w doc_url content section opts = Some (Inl e, w)"
    by (simp add: merge_content_try_def Let_def)
  then show "merge_content ops ed w doc_url content section (Some opts) =
             Some (Inr \<lparr>success = False, message = ''Error: '' @ str_of_error e,
                   requires_user_decision = None, res_affected_comments = None,
                   res_insertion_point = None, res_options = None, comments_preserved = None,
                   new_comment_id = None, res_error = Some (str_of_error e)\<rparr>, w)"
    by (simp add: merge_content_def)
next
  assume a: "calculate_insertion_point ops ed w (extract_doc_id ed doc_url)
         (if truthy section then section else target_section opts)
         (if preserve_comments opts then ''safe'' else ''simple'') = Inr ip
       \<and> \<not> (affected_comments ip \<noteq> [] \<and> comment_strategy opts = ''ask'')
       \<and> batchUpdate ed w (extract_doc_id ed doc_url)
           (simple_insert_requests (index ip) (format_content_for_insertion content)
              (extract_tab_id ed doc_url) (add_inline_attribution opts)
              (source_description opts)) = (Inl e', w')"
  from merge_content_try_refused [OF a [THEN conjunct1] a [THEN conjunct2, THEN conjunct1]
      a [THEN conjunct2, THEN conjunct2]]
  show "merge_content ops ed w doc_url content section (Some opts) =
             Some (Inr \<lparr>success = False, message = ''Failed to insert content'',
                   requires_user_decision = None, res_affected_comments = None,
                   res_insertion_point = Some ip, res_options = None,
                   comments_preserved = None, new_comment_id = None, res_error = None\<rparr>, w')"
    by (simp add: merge_content_def)
next
  fix y w2
  assume a: "calculate_insertion_point ops ed w (extract_doc_id ed doc_url)
         (if truthy section then section else target_section opts)
         (if preserve_comments opts then ''safe'' else ''simple'') = Inr ip
       \<and> \<not> (affected_comments ip \<noteq> [] \<and> comment_strategy opts = ''ask'')
       \<and> batchUpdate ed w (extract_doc_id ed doc_url)
           (simple_insert_requests (index ip) (format_content_for_insertion content)
              (extract_tab_id ed doc_url) (add_inline_attribution opts)
              (source_description opts)) = (Inr u, w1)"
  assume m: "merge_content ops ed w doc_url content section (Some opts) = Some (y, w2)"
  note t = merge_content_try_inserted [OF a [THEN conjunct1]
      a [THEN conjunct2, THEN conjunct1] a [THEN conjunct2, THEN conjunct2]]
  let ?ph = "if add_source_comment opts \<and> truthy (source_description opts)
             then add_source_comment_phase ops ed w1 (extract_doc_id ed doc_url)
                    (format_content_for_insertion content) (the (source_description opts))
             else Some (None, w1)"
  show "\<exists>cid. y = Inr \<lparr>success = True,
                     message = ''Content inserted successfully. '' @ reason ip,
                     requires_user_decision = None, res_affected_comments = None,
                     res_insertion_point = Some ip, res_options = None,
                     comments_preserved = Some (length (affected_comments ip)),
                     new_comment_id = Some cid, res_error = None\<rparr>"
  proof (cases ?ph)
    case None
    with m show ?thesis by (simp only: merge_content_def Let_def option.case t) simp
  next
    case (Some p)
    obtain cid w4 where p: "p = (cid, w4)" by (cases p)
    from m show ?thesis
      by (simp only: merge_content_def Let_def option.case t Some p prod.case sum.case) auto
  qed
next
  assume a: "calculate_insertion_point ops ed w (extract_doc_id ed doc_url)
         (if truthy section then section else target_section opts)
         (if preserve_comments opts then ''safe'' else ''simple'') = Inr ip
       \<and> \<not> (affected_comments ip \<noteq> [] \<and> comment_strategy opts = ''ask'')
       \<and> batchUpdate ed w (extract_doc_id ed doc_url)
           (simple_insert_requests (index ip) (format_content_for_insertion content)
              (extract_tab_id ed doc_url) (add_inline_attribution opts)
              (source_description opts)) = (Inr u, w1)"
  assume b: "add_source_comment opts \<and> truthy (source_description opts)
     \<and> (create_comment_with_context ops ed w1 (extract_doc_id ed doc_url)
           (comment_marker @ '' Added from '' @ the (source_description opts))
           (take (min 50 (length (strip ops (format_content_for_insertion content))))
              (strip ops (format_content_for_insertion content))) 0
          = Some (Inl e2, w3)
         \<or> (\<exists>w2. create_comment_with_context ops ed w1 (extract_doc_id ed doc_url)
               (comment_marker @ '' Added from '' @ the (source_description opts))
               (take (min 50 (length (strip ops (format_content_for_insertion content))))
                  (strip ops (format_content_for_insertion content))) 0
              = Some (Inr None, w2)
             \<and> create_comment ed w2 (extract_doc_id ed doc_url)
                 (comment_marker @ '' Added from '' @ the (source_description opts))
               = (Inl e2, w3)))"
  note t = merge_content_try_inserted [OF a [THEN conjunct1]
      a [THEN conjunct2, THEN conjunct1] a [THEN conjunct2, THEN conjunct2]]
  have c: "(add_source_comment opts \<and> truthy (source_description opts)) = True"
    using b by simp
  have ph: "add_source_comment_phase ops ed w1 (extract_doc_id ed doc_url)
              (format_content_for_insertion content) (the (source_description opts))
            = Some (None, w3)"
    using b add_source_comment_phase_raised [of ops ed w1 "extract_doc_id ed doc_url"
        "the (source_description opts)" "format_content_for_insertion content" e2 w3]
      add_source_comment_phase_fallback_raised [of ops ed w1 "extract_doc_id ed doc_url"
        "the (source_description opts)" "format_content_for_insertion content" _ e2 w3]
    by blast
  show "merge_content ops ed w doc_url content section (Some opts) =
          Some (Inr \<lparr>success = True,
                message = ''Content inserted successfully. '' @ reason ip,
                requires_user_decision = None, res_affected_comments = None,
                res_insertion_point = Some ip, res_options = None,
                comments_preserved = Some (length (affected_comments ip)),
                new_comment_id = Some None, res_error = None\<rparr>, w3)"
    by (simp only: merge_content_def Let_def option.case t c if_True ph prod.case sum.case)
qed

theorem merge_never_raises_witness:
  "merge_content latin1 denied_editor empty_store ''doc'' ''new text'' None
     (Some default_merge_options)
   = Some (Inr \<lparr>success = False, message = ''Error: No permission to access document'',
           requires_user_decision = None, res_affected_comments = None,
           res_insertion_point = None, res_options = None, comments_preserved = None,
           new_comment_id = None, res_error = Some ''No permission to access document''\<rparr>,
      empty_store)
   \<and> (\<exists>r w'. merge_content latin1 denied_editor empty_store ''doc'' ''new text'' None
               (Some default_merge_options) = Some (Inr r, w'))
   \<and> (\<exists>r w'. merge_content latin1 (serving_editor hello_doc [] []) empty_store ''doc''
               ''Hello'' None
               (Some (default_merge_options\<lparr>source_description := Some ''standup''\<rparr>))
             = Some (Inr r, w')
           \<and> success r \<and> comments_preserved r = Some 0)"
proof -
  have p: "calculate_insertion_point latin1 denied_editor empty_store
         (extract_doc_id denied_editor ''doc'')
         (if truthy None then None else target_section default_merge_options)
         (if preserve_comments default_merge_options then ''safe'' else ''simple'')
        = Inl (PermissionError ''No permission to access document'')"
    by (simp add: calculate_insertion_point_def denied_editor_def)
  have s: "strip latin1 (format_content_for_insertion ''new text'') \<noteq> []"
    by (simp add: format_content_for_insertion_def startswith_def endswith_def strip_def
        latin1_def latin1_isspace_def)
  have 1: "merge_content latin1 denied_editor empty_store ''doc'' ''new text'' None
     (Some default_merge_options)
   = Some (Inr \<lparr>success = False, message = ''Error: No permission to access document'',
           requires_user_decision = None, res_affected_comments = None,
           res_insertion_point = None, res_options = None, comments_preserved = None,
           new_comment_id = None, res_error = Some ''No permission to access document''\<rparr>,
      empty_store)
   \<and> (\<exists>r w'. merge_content latin1 denied_editor empty_store ''doc'' ''new text'' None
               (Some default_merge_options) = Some (Inr r, w'))"
    using p s merge_never_raises [of latin1 denied_editor empty_store "''doc''" "''new text''"
        None "Some default_merge_options" _ _ default_merge_options
        "PermissionError ''No permission to access document''"]
    by simp
  let ?ed = "serving_editor hello_doc [] []"
  let ?opts = "default_merge_options\<lparr>source_description := Some ''standup''\<rparr>"
  let ?ip = "\<lparr>index = 6, section_name = None, safe = True, affected_comments = [],
              strategy = ''new_section'', reason = ''Inserting at document end''\<rparr>"
  have s2: "strip latin1 (format_content_for_insertion ''Hello'') \<noteq> []"
    by (simp add: format_content_for_insertion_def startswith_def endswith_def strip_def
        latin1_def latin1_isspace_def)
  have ip: "calculate_insertion_point latin1 ?ed empty_store (extract_doc_id ?ed ''doc'')
         (if truthy None then None else target_section ?opts)
         (if preserve_comments ?opts then ''safe'' else ''simple'') = Inr ?ip"
    by (simp add: serving_editor_def empty_store_def doc_of_def section_break_def
        text_paragraph_def hello_doc_def calculate_insertion_point_def
        insert_at_document_end_def document_end_def find_commented_ranges_def content_or_def
        truthy_def default_merge_options_def Let_def)
  have ask: "\<not> (affected_comments ?ip \<noteq> [] \<and> comment_strategy ?opts = ''ask'')"
    by simp
  have batch: "batchUpdate ?ed empty_store (extract_doc_id ?ed ''doc'')
           (simple_insert_requests (index ?ip) (format_content_for_insertion ''Hello'')
              (extract_tab_id ?ed ''doc'') (add_inline_attribution ?opts)
              (source_description ?opts))
         = (Inr (), empty_store\<lparr>st_batches :=
              [simple_insert_requests (index ?ip) (format_content_for_insertion ''Hello'')
                 (extract_tab_id ?ed ''doc'') (add_inline_attribution ?opts)
                 (source_description ?opts)]\<rparr>)"
    by (simp add: serving_editor_def empty_store_def)
  note m = merge_never_raises [of latin1 ?ed empty_store "''doc''" "''Hello''" None
      "Some ?opts" _ _ ?opts _ ?ip _ _ "()"
      "empty_store\<lparr>st_batches :=
              [simple_insert_requests (index ?ip) (format_content_for_insertion ''Hello'')
                 (extract_tab_id ?ed ''doc'') (add_inline_attribution ?opts)
                 (source_description ?opts)]\<rparr>"]
  from m s2 obtain r w' where r: "merge_content latin1 ?ed empty_store ''doc'' ''Hello'' None
      (Some ?opts) = Some (Inr r, w')"
    by blast
  from m ip ask batch r have "\<exists>cid. Inr r = (Inr \<lparr>success = True,
                     message = ''Content inserted successfully. '' @ reason ?ip,
                     requires_user_decision = None, res_affected_comments = None,
                     res_insertion_point = Some ?ip, res_options = None,
                     comments_preserved = Some (length (affected_comments ?ip)),
                     new_comment_id = Some cid, res_error = None\<rparr>
                  :: error + merge_result)"
    by blast
  then have "success r \<and> comments_preserved r = Some 0" by auto
  with r 1 show ?thesis by blast
qed

text \<open>
  C7, at an input where the code leaves the claim: a failure that does not surface as a
  result without success. The store serves the document \<open>Hello\<close> and accepts the batch,
  but raises on every new comment. Both attempts to create the source comment fail, the
  second with an exception that the inner \<open>try\<close> swallows, and \<open>merge_content\<close>
  answers \<open>success = True\<close>, with no comment id and no error detail.
\<close>

theorem comment_failure_reported_as_success_counterexample:
  "create_comment (no_comments_editor hello_doc)
     (empty_store\<lparr>st_batches :=
        [simple_insert_requests 6 (format_content_for_insertion ''Hello'') None True
           (Some ''standup'')]\<rparr>)
     ''doc'' (comment_marker @ '' Added from standup'')
   = (Inl (HttpError ''Comment store unavailable''),
      empty_store\<lparr>st_batches :=
        [simple_insert_requests 6 (format_content_for_insertion ''Hello'') None True
           (Some ''standup'')]\<rparr>)
   \<and> merge_content latin1 (no_comments_editor hello_doc) empty_store ''doc'' ''Hello'' None
       (Some (default_merge_options\<lparr>source_description := Some ''standup''\<rparr>))
     = Some (Inr \<lparr>success = True,
             message = ''Content inserted successfully. Inserting at document end'',
             requires_user_decision = None, res_affected_comments = None,
             res_insertion_point =
               Some \<lparr>index = 6, section_name = None, safe = True, affected_comments = [],
                     strategy = ''new_section'', reason = ''Inserting at document end''\<rparr>,
             res_options = None, comments_preserved = Some 0,
             new_comment_id = Some None, res_error = None\<rparr>,
        empty_store\<lparr>st_batches :=
          [simple_insert_requests 6 (format_content_for_insertion ''Hello'') None True
             (Some ''standup'')]\<rparr>)"
proof -
  let ?ed = "no_comments_editor hello_doc"
  let ?opts = "default_merge_options\<lparr>source_description := Some ''standup''\<rparr>"
  let ?ip = "\<lparr>index = 6, section_name = None, safe = True, affected_comments = [],
              strategy = ''new_section'', reason = ''Inserting at document end''\<rparr>"
  let ?w1 = "empty_store\<lparr>st_batches :=
        [simple_insert_requests 6 (format_content_for_insertion ''Hello'') None True
           (Some ''standup'')]\<rparr>"
  have cc: "create_comment ?ed ?w1 ''doc'' (comment_marker @ '' Added from standup'')
            = (Inl (HttpError ''Comment store unavailable''), ?w1)"
    by (simp add: create_comment_def no_comments_editor_def)
  have s: "strip latin1 (format_content_for_insertion ''Hello'') \<noteq> []"
    by (simp add: format_content_for_insertion_def startswith_def endswith_def strip_def
        latin1_def latin1_isspace_def)
  then have t: "take (min 50 (length (strip latin1 (format_content_for_insertion ''Hello''))))
                  (strip latin1 (format_content_for_insertion ''Hello'')) \<noteq> []"
    by simp
  have ids: "extract_doc_id ?ed ''doc'' = ''doc''" "extract_tab_id ?ed ''doc'' = None"
    by (simp_all add: no_comments_editor_def)
  have ip: "calculate_insertion_point latin1 ?ed empty_store (extract_doc_id ?ed ''doc'')
         (if truthy None then None else target_section ?opts)
         (if preserve_comments ?opts then ''safe'' else ''simple'') = Inr ?ip"
    by (simp add: no_comments_editor_def empty_store_def doc_of_def section_break_def
        text_paragraph_def hello_doc_def calculate_insertion_point_def
        insert_at_document_end_def document_end_def find_commented_ranges_def content_or_def
        truthy_def default_merge_options_def Let_def)
  have ask: "\<not> (affected_comments ?ip \<noteq> [] \<and> comment_strategy ?opts = ''ask'')"
    by simp
  have batch: "batchUpdate ?ed empty_store (extract_doc_id ?ed ''doc'')
           (simple_insert_requests (index ?ip) (format_content_for_insertion ''Hello'')
              (extract_tab_id ?ed ''doc'') (add_inline_attribution ?opts)
              (source_description ?opts)) = (Inr (), ?w1)"
    by (simp add: no_comments_editor_def empty_store_def default_merge_options_def)
  have ph: "add_source_comment_phase latin1 ?ed ?w1 ''doc''
              (format_content_for_insertion ''Hello'') ''standup'' = Some (None, ?w1)"
    using add_source_comment_phase_fallback_raised [of latin1 ?ed ?w1 "''doc''" "''standup''"
        "format_content_for_insertion ''Hello''" ?w1 "HttpError ''Comment store unavailable''"
        ?w1] no_comments_context [OF t, of latin1 hello_doc ?w1 "''doc''"
        "comment_marker @ '' Added from standup''" 0] cc
    by simp
  have c: "(add_source_comment ?opts \<and> truthy (source_description ?opts)) = True"
    by (simp add: default_merge_options_def truthy_def)
  have d: "the (source_description ?opts) = ''standup''" by simp
  have "merge_content_try latin1 ?ed empty_store ''doc'' ''Hello'' None ?opts
        = Some (Inr \<lparr>success = True,
                message = ''Content inserted successfully. '' @ reason ?ip,
                requires_user_decision = None, res_affected_comments = None,
                res_insertion_point = Some ?ip, res_options = None,
                comments_preserved = Some (length (affected_comments ?ip)),
                new_comment_id = Some None, res_error = None\<rparr>, ?w1)"
    by (simp only: merge_content_try_inserted [OF ip ask batch] c if_True ids d ph option.case
        prod.case)
  then have "merge_content latin1 ?ed empty_store ''doc'' ''Hello'' None (Some ?opts)
        = Some (Inr \<lparr>success = True,
                message = ''Content inserted successfully. '' @ reason ?ip,
                requires_user_decision = None, res_affected_comments = None,
                res_insertion_point = Some ?ip, res_options = None,
                comments_preserved = Some (length (affected_comments ?ip)),
                new_comment_id = Some None, res_error = None\<rparr>, ?w1)"
    by (simp only: merge_content_def Let_def option.case prod.case sum.case)
  with cc show ?thesis by simp
qed

end
